theory Spec2Isabelle
  imports Main
begin

section \<open>JavaScript values as the migrations see them\<close>

text \<open>
  The update facade \<^verbatim>\<open>UpdateApi\<close> (background/api/update/main.ts) reads and writes
  values of \<^verbatim>\<open>browser.storage.local\<close>: JSON-serialisable JavaScript values. An object
  is a list of properties in JavaScript's own property order; \<^verbatim>\<open>undefined\<close> is the
  \<open>None\<close> of \<open>json option\<close>. Numbers are restricted to integers (the timestamps and
  identifiers the migrations handle); floating point values are outside the model.
\<close>

datatype json =
    JNull
  | JBool bool
  | JNum int
  | JStr string
  | JArr "json list"
  | JObj "(string \<times> json) list"

type_synonym 'a obj = "(string \<times> 'a) list"

subsection \<open>Objects: property order, assignment, deletion\<close>

definition is_digit :: "char \<Rightarrow> bool" where
  "is_digit c = (48 \<le> (of_char c :: nat) \<and> (of_char c :: nat) \<le> 57)"

definition digit_val :: "char \<Rightarrow> nat" where
  "digit_val c = (of_char c :: nat) - 48"

definition nat_of_digits :: "string \<Rightarrow> nat" where
  "nat_of_digits s = foldl (\<lambda>n c. 10 * n + digit_val c) 0 s"

text \<open>
  A property name is an array index when it is the canonical decimal form of an integer
  below \<open>2^32 - 1\<close>. JavaScript lists such properties first, in ascending numeric order,
  and all other string properties after them in the order of their creation.
\<close>

definition array_index :: "string \<Rightarrow> nat option" where
  "array_index s =
     (if s = [] \<or> \<not> list_all is_digit s \<or> (hd s = CHR ''0'' \<and> 1 < length s) then None
      else if nat_of_digits s < 4294967295 then Some (nat_of_digits s) else None)"

fun ins_index :: "nat \<Rightarrow> string \<Rightarrow> 'a \<Rightarrow> 'a obj \<Rightarrow> 'a obj" where
  "ins_index n k v [] = [(k, v)]"
| "ins_index n k v ((k', v') # r) =
     (case array_index k' of
        Some m \<Rightarrow> if m < n then (k', v') # ins_index n k v r else (k, v) # (k', v') # r
      | None \<Rightarrow> (k, v) # (k', v') # r)"

definition obj_get :: "string \<Rightarrow> 'a obj \<Rightarrow> 'a option" where
  "obj_get k ob = map_of ob k"

definition obj_has :: "string \<Rightarrow> 'a obj \<Rightarrow> bool" where
  "obj_has k ob = (k \<in> set (map fst ob))"

text \<open>\<^verbatim>\<open>o[k] = v\<close>: an existing property keeps its place, a new one is placed by the
  property order.\<close>

definition obj_set :: "string \<Rightarrow> 'a \<Rightarrow> 'a obj \<Rightarrow> 'a obj" where
  "obj_set k v ob =
     (if obj_has k ob then map (\<lambda>(k', v'). if k' = k then (k', v) else (k', v')) ob
      else case array_index k of
             None \<Rightarrow> ob @ [(k, v)]
           | Some n \<Rightarrow> ins_index n k v ob)"

text \<open>\<^verbatim>\<open>delete o[k]\<close>.\<close>

definition obj_delete :: "string \<Rightarrow> 'a obj \<Rightarrow> 'a obj" where
  "obj_delete k ob = filter (\<lambda>(k', v'). k' \<noteq> k) ob"

text \<open>\<^verbatim>\<open>Object.assign(target, source)\<close> and the spread \<^verbatim>\<open>{ ...a, ...b }\<close>: the
  properties of the source are assigned one by one, in the source's order.\<close>

definition obj_assign :: "'a obj \<Rightarrow> 'a obj \<Rightarrow> 'a obj" where
  "obj_assign target source = foldl (\<lambda>acc (k, v). obj_set k v acc) target source"

text \<open>JavaScript truthiness, as tested by \<^verbatim>\<open>if (x)\<close> and \<^verbatim>\<open>Boolean(x)\<close>.\<close>

fun truthy :: "json option \<Rightarrow> bool" where
  "truthy None = False"
| "truthy (Some JNull) = False"
| "truthy (Some (JBool b)) = b"
| "truthy (Some (JNum n)) = (n \<noteq> 0)"
| "truthy (Some (JStr s)) = (s \<noteq> [])"
| "truthy (Some (JArr _)) = True"
| "truthy (Some (JObj _)) = True"

subsection \<open>JSON.stringify\<close>

definition digit_char :: "nat \<Rightarrow> char" where
  "digit_char d = ''0123456789'' ! d"

function show_nat :: "nat \<Rightarrow> string" where
  "show_nat n = (if n < 10 then [digit_char n] else show_nat (n div 10) @ [digit_char (n mod 10)])"
  by pat_completeness auto
termination
  by (relation "measure id") auto

declare show_nat.simps [simp del]

definition show_int :: "int \<Rightarrow> string" where
  "show_int i = (if i < 0 then CHR ''-'' # show_nat (nat (- i)) else show_nat (nat i))"

definition hex_char :: "nat \<Rightarrow> char" where
  "hex_char d = ''0123456789abcdef'' ! d"

text \<open>The escapes \<^verbatim>\<open>JSON.stringify\<close> writes inside a string literal: the quote, the
  backslash, the short forms of the control characters, and \<^verbatim>\<open>\u00XX\<close> for the other
  characters below the space.\<close>

definition escape_char :: "char \<Rightarrow> string" where
  "escape_char c =
     (if c = CHR 0x22 then [CHR 0x5C, CHR 0x22]
      else if c = CHR 0x5C then [CHR 0x5C, CHR 0x5C]
      else if c = CHR 0x08 then [CHR 0x5C, CHR ''b'']
      else if c = CHR 0x0C then [CHR 0x5C, CHR ''f'']
      else if c = CHR 0x0A then [CHR 0x5C, CHR ''n'']
      else if c = CHR 0x0D then [CHR 0x5C, CHR ''r'']
      else if c = CHR 0x09 then [CHR 0x5C, CHR ''t'']
      else if (of_char c :: nat) < 32
        then [CHR 0x5C, CHR ''u'', CHR ''0'', CHR ''0'',
              hex_char ((of_char c :: nat) div 16), hex_char ((of_char c :: nat) mod 16)]
      else [c])"

definition quote :: "string \<Rightarrow> string" where
  "quote s = CHR 0x22 # concat (map escape_char s) @ [CHR 0x22]"

fun JSON_stringify :: "json \<Rightarrow> string"
  and stringify_elements :: "json list \<Rightarrow> string"
  and stringify_members :: "(string \<times> json) list \<Rightarrow> string" where
  "JSON_stringify JNull = ''null''"
| "JSON_stringify (JBool b) = (if b then ''true'' else ''false'')"
| "JSON_stringify (JNum n) = show_int n"
| "JSON_stringify (JStr s) = quote s"
| "JSON_stringify (JArr xs) = ''['' @ stringify_elements xs @ '']''"
| "JSON_stringify (JObj kvs) = ''{'' @ stringify_members kvs @ ''}''"
| "stringify_elements [] = []"
| "stringify_elements [x] = JSON_stringify x"
| "stringify_elements (x # y # ys) = JSON_stringify x @ '','' @ stringify_elements (y # ys)"
| "stringify_members [] = []"
| "stringify_members [(k, v)] = quote k @ '':'' @ JSON_stringify v"
| "stringify_members ((k, v) # kv # kvs) =
     quote k @ '':'' @ JSON_stringify v @ '','' @ stringify_members (kv # kvs)"

subsection \<open>JSON.parse\<close>

text \<open>
  A recursive-descent reader of the JSON grammar, with integers for numbers. A text with a
  fraction or an exponent, or with a \<^verbatim>\<open>\u\<close> escape beyond ASCII, is outside the modelled
  fragment and is reported like a syntax error. The result \<open>None\<close> stands for the
  \<^verbatim>\<open>SyntaxError\<close> that \<^verbatim>\<open>JSON.parse\<close> throws. The first argument of the mutually
  recursive functions bounds the number of nested calls; \<open>JSON_parse\<close> supplies more
  than any text of its length can use.
\<close>

definition is_ws :: "char \<Rightarrow> bool" where
  "is_ws c = (c = CHR 0x20 \<or> c = CHR 0x09 \<or> c = CHR 0x0A \<or> c = CHR 0x0D)"

definition skip_ws :: "string \<Rightarrow> string" where
  "skip_ws cs = dropWhile is_ws cs"

definition hex_val :: "char \<Rightarrow> nat option" where
  "hex_val c =
     (let n = (of_char c :: nat) in
      if 48 \<le> n \<and> n \<le> 57 then Some (n - 48)
      else if 97 \<le> n \<and> n \<le> 102 then Some (n - 87)
      else if 65 \<le> n \<and> n \<le> 70 then Some (n - 55)
      else None)"

definition unescape :: "char \<Rightarrow> char option" where
  "unescape e =
     (if e = CHR 0x22 then Some (CHR 0x22)
      else if e = CHR 0x5C then Some (CHR 0x5C)
      else if e = CHR ''/'' then Some (CHR ''/'')
      else if e = CHR ''b'' then Some (CHR 0x08)
      else if e = CHR ''f'' then Some (CHR 0x0C)
      else if e = CHR ''n'' then Some (CHR 0x0A)
      else if e = CHR ''r'' then Some (CHR 0x0D)
      else if e = CHR ''t'' then Some (CHR 0x09)
      else None)"

definition unicode_escape :: "char \<Rightarrow> char \<Rightarrow> char \<Rightarrow> char \<Rightarrow> char option" where
  "unicode_escape a b c d =
     (case (hex_val a, hex_val b, hex_val c, hex_val d) of
        (Some x, Some y, Some z, Some u) \<Rightarrow>
          (if x = 0 \<and> y = 0 \<and> z < 8 then Some (char_of (16 * z + u)) else None)
      | _ \<Rightarrow> None)"

text \<open>The characters of a string literal after its opening quote, up to the closing one.\<close>

fun parse_chars :: "string \<Rightarrow> string \<Rightarrow> (string \<times> string) option" where
  "parse_chars acc [] = None"
| "parse_chars acc (c # cs) =
     (if c = CHR 0x22 then Some (rev acc, cs)
      else if c = CHR 0x5C then
        (case cs of
           [] \<Rightarrow> None
         | e # r \<Rightarrow>
             if e = CHR ''u'' then
               (case r of
                  a # b # c' # d # r' \<Rightarrow>
                    (case unicode_escape a b c' d of
                       None \<Rightarrow> None
                     | Some x \<Rightarrow> parse_chars (x # acc) r')
                | _ \<Rightarrow> None)
             else
               (case unescape e of
                  None \<Rightarrow> None
                | Some x \<Rightarrow> parse_chars (x # acc) r))
      else if (of_char c :: nat) < 32 then None
      else parse_chars (c # acc) cs)"

definition parse_number :: "string \<Rightarrow> (json \<times> string) option" where
  "parse_number cs =
     (let neg = (cs \<noteq> [] \<and> hd cs = CHR ''-'');
          body = (if neg then tl cs else cs);
          ds = takeWhile is_digit body;
          rest = dropWhile is_digit body
      in if ds = [] \<or> (hd ds = CHR ''0'' \<and> 1 < length ds) then None
         else if rest \<noteq> [] \<and> hd rest \<in> set ''.eE'' then None
         else Some (JNum (if neg then - int (nat_of_digits ds) else int (nat_of_digits ds)), rest))"

definition strip_prefix :: "string \<Rightarrow> string \<Rightarrow> string option" where
  "strip_prefix p cs = (if take (length p) cs = p then Some (drop (length p) cs) else None)"

fun parse_value :: "nat \<Rightarrow> string \<Rightarrow> (json \<times> string) option"
  and parse_elements :: "nat \<Rightarrow> json list \<Rightarrow> string \<Rightarrow> (json \<times> string) option"
  and parse_members :: "nat \<Rightarrow> json obj \<Rightarrow> string \<Rightarrow> (json \<times> string) option" where
  "parse_value 0 cs = None"
| "parse_value (Suc f) cs =
     (case skip_ws cs of
        [] \<Rightarrow> None
      | c # r \<Rightarrow>
          if c = CHR ''{'' then
            (case skip_ws r of
               [] \<Rightarrow> None
             | c' # r' \<Rightarrow> if c' = CHR ''}'' then Some (JObj [], r') else parse_members f [] r)
          else if c = CHR ''['' then
            (case skip_ws r of
               [] \<Rightarrow> None
             | c' # r' \<Rightarrow> if c' = CHR '']'' then Some (JArr [], r') else parse_elements f [] r)
          else if c = CHR 0x22 then map_option (\<lambda>(s, r'). (JStr s, r')) (parse_chars [] r)
          else if c = CHR ''t'' then map_option (\<lambda>r'. (JBool True, r')) (strip_prefix ''rue'' r)
          else if c = CHR ''f'' then map_option (\<lambda>r'. (JBool False, r')) (strip_prefix ''alse'' r)
          else if c = CHR ''n'' then map_option (\<lambda>r'. (JNull, r')) (strip_prefix ''ull'' r)
          else parse_number (c # r))"
| "parse_elements 0 acc cs = None"
| "parse_elements (Suc f) acc cs =
     (case parse_value f cs of
        None \<Rightarrow> None
      | Some (v, r) \<Rightarrow>
          (case skip_ws r of
             [] \<Rightarrow> None
           | c # r' \<Rightarrow>
               if c = CHR '','' then parse_elements f (acc @ [v]) r'
               else if c = CHR '']'' then Some (JArr (acc @ [v]), r')
               else None))"
| "parse_members 0 acc cs = None"
| "parse_members (Suc f) acc cs =
     (case skip_ws cs of
        [] \<Rightarrow> None
      | q # r \<Rightarrow>
          if q \<noteq> CHR 0x22 then None
          else
            (case parse_chars [] r of
               None \<Rightarrow> None
             | Some (k, r1) \<Rightarrow>
                 (case skip_ws r1 of
                    [] \<Rightarrow> None
                  | c # r2 \<Rightarrow>
                      if c \<noteq> CHR '':'' then None
                      else
                        (case parse_value f r2 of
                           None \<Rightarrow> None
                         | Some (v, r3) \<Rightarrow>
                             (case skip_ws r3 of
                                [] \<Rightarrow> None
                              | d # r4 \<Rightarrow>
                                  if d = CHR '','' then parse_members f (obj_set k v acc) r4
                                  else if d = CHR ''}'' then Some (JObj (obj_set k v acc), r4)
                                  else None)))))"

definition JSON_parse :: "string \<Rightarrow> json option" where
  "JSON_parse s =
     (case parse_value (Suc (length s)) s of
        None \<Rightarrow> None
      | Some (v, r) \<Rightarrow> if skip_ws r = [] then Some v else None)"

section \<open>The validators of the zod library\<close>

text \<open>
  A validator maps an input (possibly \<^verbatim>\<open>undefined\<close>) to its output, or to \<open>None\<close> when
  the input is rejected. \<^verbatim>\<open>safeParse\<close> is the validator itself; \<^verbatim>\<open>parse\<close> throws on a
  rejected input. An object validator emits the properties of its shape first, in the
  shape's order, and then, when it passes unknown properties through, the remaining
  properties of the input in the input's order.
\<close>

datatype error =
    ZodError
  | SyntaxError
  | TransactionFailed
  | CannotFindMigration int int
  | MigrationError int int error

type_synonym validator = "json option \<Rightarrow> json option option"

datatype unknownKeys = Strip | Passthrough | Strict

definition zod_unknown :: validator where
  "zod_unknown x = Some x"

definition zod_string :: validator where
  "zod_string x = (case x of Some (JStr s) \<Rightarrow> Some x | _ \<Rightarrow> None)"

definition zod_number :: validator where
  "zod_number x = (case x of Some (JNum n) \<Rightarrow> Some x | _ \<Rightarrow> None)"

definition zod_boolean :: validator where
  "zod_boolean x = (case x of Some (JBool b) \<Rightarrow> Some x | _ \<Rightarrow> None)"

definition zod_optional :: "validator \<Rightarrow> validator" where
  "zod_optional v x = (case x of None \<Rightarrow> Some None | Some y \<Rightarrow> v x)"

definition zod_or :: "validator \<Rightarrow> validator \<Rightarrow> validator" where
  "zod_or a b x = (case a x of Some y \<Rightarrow> Some y | None \<Rightarrow> b x)"

definition zod_enum :: "string list \<Rightarrow> validator" where
  "zod_enum vals x = (case x of Some (JStr s) \<Rightarrow> if s \<in> set vals then Some x else None | _ \<Rightarrow> None)"

definition zod_preprocess :: "(json option \<Rightarrow> json option option) \<Rightarrow> validator \<Rightarrow> validator" where
  "zod_preprocess f v x = (case f x of None \<Rightarrow> None | Some y \<Rightarrow> v y)"

text \<open>No element validator used by the migrations yields \<^verbatim>\<open>undefined\<close> for an element;
  such an output is treated like a rejection.\<close>

definition zod_array :: "validator \<Rightarrow> validator" where
  "zod_array v x =
     (case x of
        Some (JArr xs) \<Rightarrow>
          (let results = map (\<lambda>e. v (Some e)) xs
           in if list_ex (\<lambda>r. r = None \<or> r = Some None) results then None
              else Some (Some (JArr (List.map_filter (\<lambda>r. case r of Some y \<Rightarrow> y | None \<Rightarrow> None) results))))
      | _ \<Rightarrow> None)"

definition zod_object :: "(string \<times> validator) list \<Rightarrow> unknownKeys \<Rightarrow> validator" where
  "zod_object shape unknown x =
     (case x of
        Some (JObj data) \<Rightarrow>
          (let results = map (\<lambda>(k, v). (k, v (obj_get k data))) shape;
               extraKeys = filter (\<lambda>(k, v). k \<notin> set (map fst shape)) data
           in if list_ex (\<lambda>(k, r). r = None) results then None
              else if unknown = Strict \<and> extraKeys \<noteq> [] then None
              else Some (Some (JObj (obj_assign []
                     (List.map_filter (\<lambda>(k, r). case r of Some (Some y) \<Rightarrow> Some (k, y) | _ \<Rightarrow> None) results
                      @ (if unknown = Passthrough then extraKeys else []))))))
      | _ \<Rightarrow> None)"

text \<open>\<^verbatim>\<open>zod.record(keyType, valueType)\<close>: every key and every value of the input object is
  validated, and the output object is assembled from the validated keys, converted back
  to property names, in the input's order.\<close>

definition zod_record :: "(string \<Rightarrow> string option) \<Rightarrow> validator \<Rightarrow> validator" where
  "zod_record keyType valueType x =
     (case x of
        Some (JObj data) \<Rightarrow>
          (let pairs = map (\<lambda>(k, v). (keyType k, valueType (Some v))) data
           in if list_ex (\<lambda>(k, r). k = None \<or> r = None) pairs then None
              else Some (Some (JObj (obj_assign []
                     (List.map_filter
                        (\<lambda>(k, r). case (k, r) of (Some k', Some (Some y)) \<Rightarrow> Some (k', y) | _ \<Rightarrow> None)
                        pairs)))))
      | _ \<Rightarrow> None)"

definition string_key :: "string \<Rightarrow> string option" where
  "string_key k = Some k"

text \<open>\<^verbatim>\<open>.transform(f)\<close> after an object validator, whose output is never \<^verbatim>\<open>undefined\<close>.\<close>

definition zod_transform :: "validator \<Rightarrow> (json \<Rightarrow> json) \<Rightarrow> validator" where
  "zod_transform v f x = map_option (map_option f) (v x)"

definition on_object :: "(json obj \<Rightarrow> json obj) \<Rightarrow> json \<Rightarrow> json" where
  "on_object f j = (case j of JObj data \<Rightarrow> JObj (f data) | _ \<Rightarrow> j)"

text \<open>\<^verbatim>\<open>zod.record(zod.unknown()).parse(x)\<close>, the check that a stored value is a record.\<close>

definition parse_unknown_record :: "json option \<Rightarrow> error + json obj" where
  "parse_unknown_record x =
     (case zod_record string_key zod_unknown x of
        Some (Some (JObj settings)) \<Rightarrow> Inr settings
      | _ \<Rightarrow> Inl ZodError)"

section \<open>The environment of the update facade\<close>

text \<open>
  The constants, validators and storage helpers that \<^verbatim>\<open>main.ts\<close> imports from other
  modules (common/constants, storages, schema, common/settings, install) are parameters
  of the model: every definition below takes them in an \<open>env\<close>, and every theorem holds
  for each choice of them unless it states a hypothesis.
\<close>

record env =
  CLIENT_ID_KEY :: string
  SCHEMA_VERSION_KEY :: string
  APP_VERSION_KEY :: string
  ADGUARD_SETTINGS_KEY :: string
  RAW_FILTER_KEY_PREFIX :: string
  FILTER_KEY_PREFIX :: string
  split_NEWLINE_CHAR_REGEX :: "string \<Rightarrow> string list"
  FiltersVersion :: string
  defaultSettings :: "json obj"
  genClientId :: string
  extractFilterIdFromFilterKey :: "string \<Rightarrow> int option"
  extractRawFilterIdFromFilterKey :: "string \<Rightarrow> int option"
  prepareFilterForStorage :: "int \<Rightarrow> string list \<Rightarrow> json obj"
  numberValidator :: "json option \<Rightarrow> int option"
  booleanValidator :: "json option \<Rightarrow> bool option"
  CACHE_TTL_MS :: int
  Date_now :: int

text \<open>The diagnostics written through \<^verbatim>\<open>logger\<close>, in the order of the calls.\<close>

datatype diag =
    ErrorWhileMigrate error
  | ResetSettings
  | SchemaMigrationFailed error
  | NoFiltersToMigrate
  | FailedToExtractFilterId string
  | FailedToParseFilter int
  | FailedToExtractRawFilterId string
  | FailedToParseRawFilter int
  | FiltersMigrated
  | FiltersVersionMigrated
  | FailedToParseFiltersVersion
  | FiltersVersionNotString
  | ErrorWhileMigrateUserRules

text \<open>
  The state outside the facade: the primary key-value backend \<^verbatim>\<open>browserStorage\<close>, the
  bulk backend \<^verbatim>\<open>hybridStorage\<close> and whether its next multi-key transaction commits,
  \<^verbatim>\<open>window.localStorage\<close>, the rows of the IndexedDB store \<^verbatim>\<open>AdguardRulesStorage\<close>
  (\<open>None\<close> when it cannot be opened or read), and the log. The primitives of the primary
  backend acknowledge every call; of the backends only \<^verbatim>\<open>setMultiple\<close> reports failure.
\<close>

record world =
  browserStorage :: "json obj"
  hybridStorage :: "json obj"
  hybridWritable :: bool
  localStorage :: "string obj"
  indexedDB :: "json option"
  logged :: "diag list"

type_synonym step = "world \<Rightarrow> (error + unit) \<times> world"

definition logger :: "diag \<Rightarrow> world \<Rightarrow> world" where
  "logger d w = w\<lparr>logged := logged w @ [d]\<rparr>"

definition browserStorage_get :: "string \<Rightarrow> world \<Rightarrow> json option" where
  "browserStorage_get key w = obj_get key (browserStorage w)"

definition browserStorage_set :: "string \<Rightarrow> json \<Rightarrow> world \<Rightarrow> world" where
  "browserStorage_set key v w = w\<lparr>browserStorage := obj_set key v (browserStorage w)\<rparr>"

definition browserStorage_removeMultiple :: "string list \<Rightarrow> world \<Rightarrow> world" where
  "browserStorage_removeMultiple keys w =
     w\<lparr>browserStorage := filter (\<lambda>(k, v). k \<notin> set keys) (browserStorage w)\<rparr>"

text \<open>\<^verbatim>\<open>hybridStorage.setMultiple\<close>: all entries are written and \<^verbatim>\<open>true\<close> is returned, or
  nothing is written and \<^verbatim>\<open>false\<close> is returned.\<close>

definition hybridStorage_setMultiple :: "json obj \<Rightarrow> world \<Rightarrow> bool \<times> world" where
  "hybridStorage_setMultiple data w =
     (if hybridWritable w then (True, w\<lparr>hybridStorage := obj_assign (hybridStorage w) data\<rparr>)
      else (False, w))"

definition localStorage_removeItem :: "string \<Rightarrow> world \<Rightarrow> world" where
  "localStorage_removeItem key w = w\<lparr>localStorage := obj_delete key (localStorage w)\<rparr>"

definition startsWith :: "string \<Rightarrow> string \<Rightarrow> bool" where
  "startsWith s p = (take (length p) s = p)"

section \<open>Migration from schema v3 to schema v4\<close>

definition filterSchema :: validator where
  "filterSchema = zod_or zod_string (zod_array zod_string)"

definition strings_of :: "json list \<Rightarrow> string list" where
  "strings_of xs = List.map_filter (\<lambda>e. case e of JStr s \<Rightarrow> Some s | _ \<Rightarrow> None) xs"

text \<open>The body of \<^verbatim>\<open>filterKeys.forEach\<close>: the state is the staged \<^verbatim>\<open>migrationData\<close> and
  the world (for the log).\<close>

definition migrateFilterKey :: "env \<Rightarrow> json obj \<Rightarrow> string \<Rightarrow> json obj \<times> world \<Rightarrow> json obj \<times> world" where
  "migrateFilterKey env entries key st =
     (case st of (migrationData, w) \<Rightarrow>
        (case extractFilterIdFromFilterKey env key of
           None \<Rightarrow> (migrationData, logger (FailedToExtractFilterId key) w)
         | Some filterId \<Rightarrow>
             (case filterSchema (obj_get key entries) of
                Some (Some (JArr xs)) \<Rightarrow>
                  (obj_assign migrationData (prepareFilterForStorage env filterId (strings_of xs)), w)
              | Some (Some (JStr text)) \<Rightarrow>
                  (obj_assign migrationData
                     (prepareFilterForStorage env filterId (split_NEWLINE_CHAR_REGEX env text)), w)
              | _ \<Rightarrow> (migrationData, logger (FailedToParseFilter filterId) w))))"

text \<open>The body of \<^verbatim>\<open>rawFilterKeys.forEach\<close>.\<close>

definition migrateRawFilterKey :: "env \<Rightarrow> json obj \<Rightarrow> string \<Rightarrow> json obj \<times> world \<Rightarrow> json obj \<times> world" where
  "migrateRawFilterKey env entries key st =
     (case st of (migrationData, w) \<Rightarrow>
        (case extractRawFilterIdFromFilterKey env key of
           None \<Rightarrow> (migrationData, logger (FailedToExtractRawFilterId key) w)
         | Some filterId \<Rightarrow>
             (case zod_string (obj_get key entries) of
                Some (Some (JStr text)) \<Rightarrow> (obj_set key (JStr text) migrationData, w)
              | _ \<Rightarrow> (migrationData, logger (FailedToParseRawFilter filterId) w))))"

text \<open>Both loops, from the empty \<^verbatim>\<open>migrationData\<close>.\<close>

definition stageFilters :: "env \<Rightarrow> json obj \<Rightarrow> string list \<Rightarrow> string list \<Rightarrow> world \<Rightarrow> json obj \<times> world" where
  "stageFilters env entries filterKeys rawFilterKeys w =
     foldl (\<lambda>st key. migrateRawFilterKey env entries key st)
       (foldl (\<lambda>st key. migrateFilterKey env entries key st) ([], w) filterKeys)
       rawFilterKeys"

definition filterVersionDataValidatorV3 :: validator where
  "filterVersionDataValidatorV3 =
     zod_object [(''lastCheckTime'', zod_number),
                 (''lastScheduledCheckTime'', zod_optional zod_number)] Passthrough"

definition number_key :: "env \<Rightarrow> string \<Rightarrow> string option" where
  "number_key env k = map_option show_int (numberValidator env (Some (JStr k)))"

definition filtersVersionDataValidatorV3 :: "env \<Rightarrow> validator" where
  "filtersVersionDataValidatorV3 env = zod_record (number_key env) filterVersionDataValidatorV3"

text \<open>The body of \<^verbatim>\<open>Object.values(filtersVersion).forEach\<close>.\<close>

definition backfillScheduledCheckTime :: "json obj \<Rightarrow> json obj" where
  "backfillScheduledCheckTime filterData =
     (case obj_get ''lastScheduledCheckTime'' filterData of
        None \<Rightarrow>
          (case obj_get ''lastCheckTime'' filterData of
             Some t \<Rightarrow> obj_set ''lastScheduledCheckTime'' t filterData
           | None \<Rightarrow> filterData)
      | Some t \<Rightarrow> filterData)"

text \<open>Lines 231 to 271: the check times inside the settings.\<close>

definition migrateFiltersVersion :: "env \<Rightarrow> step" where
  "migrateFiltersVersion env w =
     (case parse_unknown_record (browserStorage_get (ADGUARD_SETTINGS_KEY env) w) of
        Inl e \<Rightarrow> (Inl e, w)
      | Inr settings \<Rightarrow>
          (case obj_get (FiltersVersion env) settings of
             Some (JStr rawFiltersVersion) \<Rightarrow>
               (case JSON_parse rawFiltersVersion of
                  None \<Rightarrow> (Inl SyntaxError, w)
                | Some parsed \<Rightarrow>
                    (case filtersVersionDataValidatorV3 env (Some parsed) of
                       Some (Some (JObj filtersVersion)) \<Rightarrow>
                         (Inr (),
                          logger FiltersVersionMigrated
                            (browserStorage_set (ADGUARD_SETTINGS_KEY env)
                               (JObj (obj_set (FiltersVersion env)
                                  (JStr (JSON_stringify
                                     (JObj (map (\<lambda>(k, filterData). (k, on_object backfillScheduledCheckTime filterData))
                                              filtersVersion))))
                                  settings))
                               w))
                     | _ \<Rightarrow> (Inr (), logger FailedToParseFiltersVersion w)))
           | _ \<Rightarrow> (Inr (), logger FiltersVersionNotString w)))"

definition migrateFromV3toV4 :: "env \<Rightarrow> step" where
  "migrateFromV3toV4 env w =
     (let entries = browserStorage w;
          keys = map fst entries;
          rawFilterKeys = filter (\<lambda>key. startsWith key (RAW_FILTER_KEY_PREFIX env)) keys;
          filterKeys = filter (\<lambda>key. startsWith key (FILTER_KEY_PREFIX env)) keys
      in if rawFilterKeys = [] \<and> filterKeys = [] then (Inr (), logger NoFiltersToMigrate w)
         else
           (case stageFilters env entries filterKeys rawFilterKeys w of
              (migrationData, w1) \<Rightarrow>
                (case hybridStorage_setMultiple migrationData w1 of
                   (transactionResult, w2) \<Rightarrow>
                     if \<not> transactionResult then (Inl TransactionFailed, w2)
                     else migrateFiltersVersion env
                            (logger FiltersMigrated
                               (browserStorage_removeMultiple (rawFilterKeys @ filterKeys) w2)))))"

section \<open>Migration from schema v2 to schema v3\<close>

text \<open>\<^verbatim>\<open>value.split(/\r?\n/)\<close>.\<close>

fun split_lines :: "string \<Rightarrow> string \<Rightarrow> string list" where
  "split_lines cur [] = [rev cur]"
| "split_lines cur [c] = (if c = CHR 0x0A then [rev cur, []] else [rev (c # cur)])"
| "split_lines cur (c # d # cs) =
     (if c = CHR 0x0A then rev cur # split_lines [] (d # cs)
      else if c = CHR 0x0D \<and> d = CHR 0x0A then rev cur # split_lines [] cs
      else split_lines (c # cur) (d # cs))"

text \<open>Lines 283 to 312. A failure to open or read the database, or rows of another shape,
  are caught and logged; the rows are stored one by one.\<close>

definition storeUserRules :: "world \<Rightarrow> json \<Rightarrow> world" where
  "storeUserRules w item =
     (case item of
        JObj row \<Rightarrow>
          (case (obj_get ''key'' row, obj_get ''value'' row) of
             (Some (JStr key), Some (JStr v)) \<Rightarrow>
               browserStorage_set key (JArr (map JStr (split_lines [] v))) w
           | _ \<Rightarrow> w)
      | _ \<Rightarrow> w)"

definition migrateUserRules :: "world \<Rightarrow> world" where
  "migrateUserRules w =
     (case indexedDB w of
        None \<Rightarrow> logger ErrorWhileMigrateUserRules w
      | Some data \<Rightarrow>
          (case zod_array (zod_object [(''key'', zod_string), (''value'', zod_string)] Strip) (Some data) of
             Some (Some (JArr rows)) \<Rightarrow> foldl storeUserRules w rows
           | _ \<Rightarrow> logger ErrorWhileMigrateUserRules w))"

text \<open>\<^verbatim>\<open>({ trusted, ...rest }) => ({ ...rest, trusted: Boolean(trusted) })\<close>.\<close>

definition addTrusted :: "json obj \<Rightarrow> json obj" where
  "addTrusted data =
     obj_assign (obj_assign [] (obj_delete ''trusted'' data))
       [(''trusted'', JBool (truthy (obj_get ''trusted'' data)))]"

definition customFiltersDataTransformerV2 :: validator where
  "customFiltersDataTransformerV2 =
     zod_array (zod_transform (zod_object [(''trusted'', zod_optional zod_boolean)] Passthrough)
                  (on_object addTrusted))"

text \<open>
  The pattern the migrations repeat for a field that holds serialised text:
  \<^verbatim>\<open>JSON.stringify(transformer.parse(JSON.parse(text)))\<close>.
\<close>

definition reserialize :: "validator \<Rightarrow> string \<Rightarrow> error + string" where
  "reserialize transformer text =
     (case JSON_parse text of
        None \<Rightarrow> Inl SyntaxError
      | Some data \<Rightarrow>
          (case transformer (Some data) of
             Some (Some out) \<Rightarrow> Inr (JSON_stringify out)
           | _ \<Rightarrow> Inl ZodError))"

text \<open>\<^verbatim>\<open>if (typeof settings[key] === 'string') { settings[key] = ... }\<close>.\<close>

definition transformField :: "string \<Rightarrow> validator \<Rightarrow> json obj \<Rightarrow> error + json obj" where
  "transformField key transformer settings =
     (case obj_get key settings of
        Some (JStr text) \<Rightarrow>
          (case reserialize transformer text of
             Inl e \<Rightarrow> Inl e
           | Inr text' \<Rightarrow> Inr (obj_set key (JStr text') settings))
      | _ \<Rightarrow> Inr settings)"

definition migrateFromV2toV3 :: "env \<Rightarrow> step" where
  "migrateFromV2toV3 env w =
     (let w1 = migrateUserRules w
      in case parse_unknown_record (browserStorage_get ''adguard-settings'' w1) of
           Inl e \<Rightarrow> (Inl e, w1)
         | Inr settings \<Rightarrow>
             (case obj_get ''custom-filters'' settings of
                Some (JStr customFilters) \<Rightarrow>
                  (case transformField ''custom-filters'' customFiltersDataTransformerV2 settings of
                     Inl e \<Rightarrow> (Inl e, w1)
                   | Inr settings' \<Rightarrow> (Inr (), browserStorage_set ''adguard-settings'' (JObj settings') w1))
              | _ \<Rightarrow> (Inr (), w1)))"

section \<open>Migration from schema v1 to schema v2\<close>

text \<open>The record written for one entry of the safebrowsing cache.\<close>

definition sbRecordV2 :: "env \<Rightarrow> json \<Rightarrow> json" where
  "sbRecordV2 env item =
     (case item of
        JObj row \<Rightarrow>
          (case (obj_get ''key'' row, obj_get ''value'' row) of
             (Some key, Some (JStr v)) \<Rightarrow>
               JObj (obj_assign []
                 [(''key'', key),
                  (''value'',
                   JObj (obj_assign []
                     ((''list'', JStr v) #
                      (if v \<noteq> ''allowlist'' then [(''expires'', JNum (Date_now env + CACHE_TTL_MS env))]
                       else []))))])
           | _ \<Rightarrow> item)
      | _ \<Rightarrow> item)"

definition migrateFromV1toV2 :: "env \<Rightarrow> step" where
  "migrateFromV1toV2 env w =
     (case browserStorage_get ''sb-lru-cache'' w of
        Some (JStr storageData) \<Rightarrow>
          (case JSON_parse storageData of
             None \<Rightarrow> (Inl SyntaxError, w)
           | Some data \<Rightarrow>
               (case zod_array (zod_object [(''key'', zod_string), (''value'', zod_string)] Strict) (Some data) of
                  Some (Some (JArr sbStorageDataV1)) \<Rightarrow>
                    (Inr (),
                     browserStorage_set ''sb-lru-cache''
                       (JStr (JSON_stringify (JArr (map (sbRecordV2 env) sbStorageDataV1)))) w)
                | _ \<Rightarrow> (Inl ZodError, w)))
      | _ \<Rightarrow> (Inr (), w))"

section \<open>Migration from schema v0 to schema v1\<close>

text \<open>\<^verbatim>\<open>if (currentSettings[key]) { delete currentSettings[key]; }\<close>.\<close>

definition deleteIfSet :: "string \<Rightarrow> json obj \<Rightarrow> json obj" where
  "deleteIfSet key currentSettings =
     (if truthy (obj_get key currentSettings) then obj_delete key currentSettings else currentSettings)"

text \<open>The renaming of a field: \<^verbatim>\<open>if (s[old] !== undefined) { s[new] = s[old]; delete s[old]; }\<close>.\<close>

definition renameField :: "string \<Rightarrow> string \<Rightarrow> json obj \<Rightarrow> json obj" where
  "renameField keyToCheck newKey currentSettings =
     (case obj_get keyToCheck currentSettings of
        Some v \<Rightarrow> obj_delete keyToCheck (obj_set newKey v currentSettings)
      | None \<Rightarrow> currentSettings)"

text \<open>\<^verbatim>\<open>(data) => { const enabled = Boolean(data.enabled); return { ...data, enabled, touched: enabled }; }\<close>.\<close>

definition addTouched :: "json obj \<Rightarrow> json obj" where
  "addTouched data =
     (let enabled = truthy (obj_get ''enabled'' data)
      in obj_assign (obj_assign [] data) [(''enabled'', JBool enabled), (''touched'', JBool enabled)])"

definition groupsStateTransformer :: validator where
  "groupsStateTransformer =
     zod_record string_key
       (zod_transform (zod_object [(''enabled'', zod_optional zod_boolean)] Passthrough)
          (on_object addTouched))"

text \<open>\<^verbatim>\<open>({ installed, enabled, ...rest }) => ({ ...rest, enabled: Boolean(enabled), installed: Boolean(installed) })\<close>.\<close>

definition addEnabledInstalled :: "json obj \<Rightarrow> json obj" where
  "addEnabledInstalled data =
     obj_assign (obj_assign [] (obj_delete ''enabled'' (obj_delete ''installed'' data)))
       [(''enabled'', JBool (truthy (obj_get ''enabled'' data))),
        (''installed'', JBool (truthy (obj_get ''installed'' data)))]"

definition filtersStateTransformer :: validator where
  "filtersStateTransformer =
     zod_record string_key
       (zod_transform
          (zod_object [(''enabled'', zod_optional zod_boolean),
                       (''installed'', zod_optional zod_boolean)] Passthrough)
          (on_object addEnabledInstalled))"

text \<open>
  \<^verbatim>\<open>Number(x)\<close> for a number or a string, within the integers: a string that is empty
  or blank is 0, an optionally signed run of digits is its value, and any other string is
  not a number. Only the serialised form of the result is used, and \<^verbatim>\<open>JSON.stringify\<close>
  writes \<^verbatim>\<open>NaN\<close> as \<^verbatim>\<open>null\<close>.
\<close>

definition trim :: "string \<Rightarrow> string" where
  "trim s = rev (dropWhile is_ws (rev (dropWhile is_ws s)))"

definition int_of_string :: "string \<Rightarrow> int option" where
  "int_of_string s =
     (let t = trim s;
          neg = (t \<noteq> [] \<and> hd t = CHR ''-'');
          body = (if t \<noteq> [] \<and> (hd t = CHR ''-'' \<or> hd t = CHR ''+'') then tl t else t)
      in if t = [] then Some 0
         else if body \<noteq> [] \<and> list_all is_digit body
           then Some (if neg then - int (nat_of_digits body) else int (nat_of_digits body))
         else None)"

definition js_Number :: "json \<Rightarrow> json" where
  "js_Number x =
     (case x of
        JStr s \<Rightarrow> (case int_of_string s of Some n \<Rightarrow> JNum n | None \<Rightarrow> JNull)
      | _ \<Rightarrow> x)"

text \<open>The transform of a custom filter: \<^verbatim>\<open>trusted\<close> and \<^verbatim>\<open>timeUpdated\<close> are computed,
  the deprecated \<^verbatim>\<open>languages\<close> is deleted, then \<^verbatim>\<open>{ ...data, trusted, timeUpdated }\<close>.\<close>

definition fixCustomFilter :: "json obj \<Rightarrow> json obj" where
  "fixCustomFilter data =
     (let trusted = JBool (truthy (obj_get ''trusted'' data));
          timeUpdated = (case obj_get ''timeUpdated'' data of None \<Rightarrow> JNum 0 | Some t \<Rightarrow> js_Number t)
      in obj_assign (obj_assign [] (obj_delete ''languages'' data))
           [(''trusted'', trusted), (''timeUpdated'', timeUpdated)])"

definition customFiltersDataTransformer :: validator where
  "customFiltersDataTransformer =
     zod_array
       (zod_transform
          (zod_object [(''trusted'', zod_optional zod_boolean),
                       (''timeUpdated'', zod_optional (zod_or zod_number zod_string))] Passthrough)
          (on_object fixCustomFilter))"

text \<open>\<^verbatim>\<open>({ lastUpdateTime, ...rest }) => ({ ...rest, lastUpdateTime: lastUpdateTime ?? 0 })\<close>.\<close>

definition addLastUpdateTime :: "json obj \<Rightarrow> json obj" where
  "addLastUpdateTime data =
     obj_assign (obj_assign [] (obj_delete ''lastUpdateTime'' data))
       [(''lastUpdateTime'',
         (case obj_get ''lastUpdateTime'' data of None \<Rightarrow> JNum 0 | Some t \<Rightarrow> t))]"

definition filtersVersionsTransformer :: validator where
  "filtersVersionsTransformer =
     zod_record string_key
       (zod_transform (zod_object [(''lastUpdateTime'', zod_optional zod_number)] Passthrough)
          (on_object addLastUpdateTime))"

text \<open>\<^verbatim>\<open>moveStorageData(key, currentSettings)\<close>: the settings object is mutated in place, so
  the model returns it together with the world.\<close>

definition moveStorageData :: "string \<Rightarrow> json obj \<times> world \<Rightarrow> json obj \<times> world" where
  "moveStorageData key st =
     (case st of (currentSettings, w) \<Rightarrow>
        (case obj_get key currentSettings of
           Some data \<Rightarrow>
             if truthy (Some data)
             then (obj_delete key currentSettings, browserStorage_set key data w)
             else (currentSettings, w)
         | None \<Rightarrow> (currentSettings, w)))"

definition appearanceThemePreprocess :: "json option \<Rightarrow> json option option" where
  "appearanceThemePreprocess x =
     (case x of
        Some (JStr v) \<Rightarrow> if CHR 0x22 \<in> set v then map_option Some (JSON_parse v) else Some x
      | _ \<Rightarrow> Some x)"

definition boolean_of :: "env \<Rightarrow> validator" where
  "boolean_of env x = map_option (\<lambda>b. Some (JBool b)) (booleanValidator env x)"

definition number_of :: "env \<Rightarrow> validator" where
  "number_of env x = map_option (\<lambda>n. Some (JNum n)) (numberValidator env x)"

definition settingsValidator :: "env \<Rightarrow> validator" where
  "settingsValidator env =
     zod_object
       [(''appearance-theme'', zod_preprocess appearanceThemePreprocess (zod_enum [''system'', ''dark'', ''light''])),
        (''disable-show-page-statistic'', boolean_of env),
        (''detect-filters-disabled'', boolean_of env),
        (''safebrowsing-disabled'', boolean_of env),
        (''filters-update-period'', number_of env),
        (''use-optimized-filters'', boolean_of env),
        (''hits-count-disabled'', boolean_of env),
        (''context-menu-disabled'', boolean_of env),
        (''show-info-about-adguard-disabled'', boolean_of env),
        (''show-app-updated-disabled'', boolean_of env),
        (''hide-rate-block'', boolean_of env),
        (''user-rules-editor-wrap'', boolean_of env),
        (''allowlist-domains'', zod_string),
        (''block-list-domains'', zod_string),
        (''allowlist-enabled'', boolean_of env),
        (''default-allowlist-mode'', boolean_of env),
        (''stealth-disable-stealth-mode'', boolean_of env),
        (''stealth-hide-referrer'', boolean_of env),
        (''stealth-hide-search-queries'', boolean_of env),
        (''stealth-send-do-not-track'', boolean_of env),
        (''stealth-block-webrtc'', boolean_of env),
        (''stealth-remove-x-client'', boolean_of env),
        (''stealth-block-third-party-cookies'', boolean_of env),
        (''stealth-block-third-party-cookies-time'', number_of env),
        (''stealth-block-first-party-cookies'', boolean_of env),
        (''stealth-block-first-party-cookies-time'', number_of env),
        (''user-filter-enabled'', boolean_of env),
        (''filters-state'', zod_optional zod_string),
        (''filters-version'', zod_optional zod_string),
        (''groups-state'', zod_optional zod_string),
        (''custom-filters'', zod_optional zod_string),
        (''adguard-disabled'', boolean_of env)]
       Strip"

text \<open>Lines 400 to 524: the edits of the fields, in the order of the source.\<close>

definition bind_result :: "error + 'a \<Rightarrow> ('a \<Rightarrow> error + 'b) \<Rightarrow> error + 'b" where
  "bind_result r f = (case r of Inl e \<Rightarrow> Inl e | Inr x \<Rightarrow> f x)"

definition editSettings :: "json obj \<Rightarrow> error + json obj" where
  "editSettings currentSettings =
     bind_result
       (transformField ''groups-state'' groupsStateTransformer
          (renameField ''custom_filters'' ''custom-filters''
             (renameField ''stealth_disable_stealth_mode'' ''stealth-disable-stealth-mode''
                (renameField ''white-list-domains'' ''allowlist-domains''
                   (renameField ''default-whitelist-mode'' ''default-allowlist-mode''
                      (deleteIfSet ''filters-metadata''
                         (deleteIfSet ''filters-i18n-metadata''
                            (deleteIfSet ''app-version'' currentSettings))))))))
       (\<lambda>s1. bind_result (transformField ''filters-state'' filtersStateTransformer s1)
          (\<lambda>s2. bind_result (transformField ''custom-filters'' customFiltersDataTransformer s2)
             (\<lambda>s3. transformField ''filters-version'' filtersVersionsTransformer s3)))"

definition movedKeys :: "string list" where
  "movedKeys = [''viewed-notifications'', ''viewed-notification-time'', ''client-id'',
                ''page-statistic'', ''safebrowsing-suspended-from'', ''sb-lru-cache'']"

definition migrateFromV0toV1 :: "env \<Rightarrow> step" where
  "migrateFromV0toV1 env w =
     (let w1 = localStorage_removeItem ''viewed-notification-time''
                 (localStorage_removeItem ''viewed-notifications'' w)
      in case parse_unknown_record (browserStorage_get ''adguard-settings'' w1) of
           Inl e \<Rightarrow> (Inl e, w1)
         | Inr currentSettings \<Rightarrow>
             (case editSettings currentSettings of
                Inl e \<Rightarrow> (Inl e, w1)
              | Inr edited \<Rightarrow>
                  (case foldl (\<lambda>st key. moveStorageData key st) (edited, w1) movedKeys of
                     (moved, w2) \<Rightarrow>
                       (case settingsValidator env
                               (Some (JObj (obj_assign (obj_assign [] (defaultSettings env)) moved))) of
                          Some (Some settings) \<Rightarrow>
                            (Inr (), browserStorage_set ''adguard-settings'' settings w2)
                        | _ \<Rightarrow> (Inl ZodError, w2)))))"

section \<open>The runner and the entry point\<close>

definition schemaMigrationMap :: "env \<Rightarrow> int \<Rightarrow> step option" where
  "schemaMigrationMap env schema =
     (if schema = 0 then Some (migrateFromV0toV1 env)
      else if schema = 1 then Some (migrateFromV1toV2 env)
      else if schema = 2 then Some (migrateFromV2toV3 env)
      else if schema = 3 then Some (migrateFromV3toV4 env)
      else None)"

definition runSchemaMigration :: "step \<Rightarrow> int \<Rightarrow> int \<Rightarrow> step" where
  "runSchemaMigration schemaMigrationAction previousSchemaVersion currentSchemaVersion w =
     (case schemaMigrationAction w of
        (Inl e, w') \<Rightarrow>
          (Inl (MigrationError previousSchemaVersion currentSchemaVersion e),
           logger (SchemaMigrationFailed
                     (MigrationError previousSchemaVersion currentSchemaVersion e)) w')
      | (Inr u, w') \<Rightarrow> (Inr u, w'))"

text \<open>
  The \<^verbatim>\<open>for\<close> loop of \<^verbatim>\<open>runMigrations\<close>, with the registry as an argument. Besides the
  outcome and the world it returns the versions whose migration action it has invoked, in
  the order of the invocations; the source keeps no such list, it is the model's record
  of what ran.
\<close>

function migrationLoop ::
  "(int \<Rightarrow> step option) \<Rightarrow> int \<Rightarrow> int \<Rightarrow> int \<Rightarrow> world \<Rightarrow> int list \<times> (error + unit) \<times> world" where
  "migrationLoop registry previousSchemaVersion currentSchemaVersion schema w =
     (if schema < currentSchemaVersion then
        (case registry schema of
           None \<Rightarrow> ([], Inl (CannotFindMigration previousSchemaVersion currentSchemaVersion), w)
         | Some schemaMigrationAction \<Rightarrow>
             (case runSchemaMigration schemaMigrationAction schema (schema + 1) w of
                (Inl e, w') \<Rightarrow> ([schema], Inl e, w')
              | (Inr u, w') \<Rightarrow>
                  (case migrationLoop registry previousSchemaVersion currentSchemaVersion (schema + 1) w' of
                     (executed, r) \<Rightarrow> (schema # executed, r))))
      else ([], Inr (), w))"
  by pat_completeness auto
termination
  by (relation "measure (\<lambda>(registry, previousSchemaVersion, currentSchemaVersion, schema, w).
                  nat (currentSchemaVersion - schema))") auto

declare migrationLoop.simps [simp del]

text \<open>The \<^verbatim>\<open>catch\<close> block of \<^verbatim>\<open>runMigrations\<close>.\<close>

definition resetSettings :: "env \<Rightarrow> error \<Rightarrow> world \<Rightarrow> world" where
  "resetSettings env e w =
     browserStorage_set (ADGUARD_SETTINGS_KEY env) (JObj (defaultSettings env))
       (logger ResetSettings (logger (ErrorWhileMigrate e) w))"

definition runMigrations :: "env \<Rightarrow> int \<Rightarrow> int \<Rightarrow> world \<Rightarrow> int list \<times> (error + unit) \<times> world" where
  "runMigrations env currentSchemaVersion previousSchemaVersion w =
     (case migrationLoop (schemaMigrationMap env) previousSchemaVersion currentSchemaVersion
             previousSchemaVersion w of
        (executed, Inl e, w') \<Rightarrow> (executed, Inr (), resetSettings env e w')
      | (executed, Inr u, w') \<Rightarrow> (executed, Inr u, w'))"

record runInfo =
  clientId :: "string option"
  currentAppVersion :: string
  currentSchemaVersion :: int
  previousSchemaVersion :: int

text \<open>Lines 78 to 87 of \<^verbatim>\<open>update\<close>: the client id, then the schema and application
  versions, are written before any migration runs.\<close>

definition persistRunInfo :: "env \<Rightarrow> runInfo \<Rightarrow> world \<Rightarrow> world" where
  "persistRunInfo env info w =
     (let w1 = (case clientId info of
                  Some c \<Rightarrow>
                    if c \<noteq> [] then browserStorage_set (CLIENT_ID_KEY env) (JStr c) w
                    else browserStorage_set (CLIENT_ID_KEY env) (JStr (genClientId env)) w
                | None \<Rightarrow> browserStorage_set (CLIENT_ID_KEY env) (JStr (genClientId env)) w);
          w2 = browserStorage_set (SCHEMA_VERSION_KEY env) (JNum (currentSchemaVersion info)) w1
      in browserStorage_set (APP_VERSION_KEY env) (JStr (currentAppVersion info)) w2)"

definition update :: "env \<Rightarrow> runInfo \<Rightarrow> world \<Rightarrow> int list \<times> (error + unit) \<times> world" where
  "update env info w =
     runMigrations env (currentSchemaVersion info) (previousSchemaVersion info)
       (persistRunInfo env info w)"

section \<open>A sample environment and sample stores\<close>

text \<open>
  One choice of the imported constants and helpers, with the key names of the extension,
  used to run the migrations on concrete stores.
\<close>

definition join_lines :: "string list \<Rightarrow> string" where
  "join_lines ls = (case ls of [] \<Rightarrow> [] | l # r \<Rightarrow> foldl (\<lambda>acc x. acc @ [CHR 0x0A] @ x) l r)"

definition sampleFilterId :: "string \<Rightarrow> string \<Rightarrow> int option" where
  "sampleFilterId prfx key =
     (if startsWith key prfx \<and> drop (length prfx) key \<noteq> [] \<and> list_all is_digit (drop (length prfx) key)
      then Some (int (nat_of_digits (drop (length prfx) key))) else None)"

definition sampleNumberValidator :: "json option \<Rightarrow> int option" where
  "sampleNumberValidator x =
     (case x of Some (JNum n) \<Rightarrow> Some n | Some (JStr s) \<Rightarrow> int_of_string s | _ \<Rightarrow> None)"

definition sampleBooleanValidator :: "json option \<Rightarrow> bool option" where
  "sampleBooleanValidator x =
     (case x of
        Some (JBool b) \<Rightarrow> Some b
      | Some (JStr s) \<Rightarrow> map_option (\<lambda>v. truthy (Some v)) (JSON_parse s)
      | _ \<Rightarrow> None)"

definition sampleDefaults :: "json obj" where
  "sampleDefaults =
     [(''appearance-theme'', JStr ''system''),
      (''disable-show-page-statistic'', JBool False),
      (''detect-filters-disabled'', JBool False),
      (''safebrowsing-disabled'', JBool True),
      (''filters-update-period'', JNum (- 1)),
      (''use-optimized-filters'', JBool False),
      (''hits-count-disabled'', JBool True),
      (''context-menu-disabled'', JBool False),
      (''show-info-about-adguard-disabled'', JBool False),
      (''show-app-updated-disabled'', JBool False),
      (''hide-rate-block'', JBool False),
      (''user-rules-editor-wrap'', JBool False),
      (''allowlist-domains'', JStr ''[]''),
      (''block-list-domains'', JStr ''[]''),
      (''allowlist-enabled'', JBool True),
      (''default-allowlist-mode'', JBool True),
      (''stealth-disable-stealth-mode'', JBool True),
      (''stealth-hide-referrer'', JBool True),
      (''stealth-hide-search-queries'', JBool True),
      (''stealth-send-do-not-track'', JBool True),
      (''stealth-block-webrtc'', JBool False),
      (''stealth-remove-x-client'', JBool True),
      (''stealth-block-third-party-cookies'', JBool True),
      (''stealth-block-third-party-cookies-time'', JNum 2880),
      (''stealth-block-first-party-cookies'', JBool False),
      (''stealth-block-first-party-cookies-time'', JNum 4320),
      (''user-filter-enabled'', JBool True),
      (''adguard-disabled'', JBool False)]"

definition sampleEnv :: env where
  "sampleEnv =
     \<lparr>CLIENT_ID_KEY = ''client-id'',
      SCHEMA_VERSION_KEY = ''schema-version'',
      APP_VERSION_KEY = ''app-version'',
      ADGUARD_SETTINGS_KEY = ''adguard-settings'',
      RAW_FILTER_KEY_PREFIX = ''raw_filterrules_'',
      FILTER_KEY_PREFIX = ''filterrules_'',
      split_NEWLINE_CHAR_REGEX = split_lines [],
      FiltersVersion = ''filters-version'',
      defaultSettings = sampleDefaults,
      genClientId = ''generated-client-id'',
      extractFilterIdFromFilterKey = sampleFilterId ''filterrules_'',
      extractRawFilterIdFromFilterKey = sampleFilterId ''raw_filterrules_'',
      prepareFilterForStorage = (\<lambda>filterId ls. [(''filterrules_'' @ show_int filterId, JStr (join_lines ls))]),
      numberValidator = sampleNumberValidator,
      booleanValidator = sampleBooleanValidator,
      CACHE_TTL_MS = 2400000,
      Date_now = 1700000000000\<rparr>"

definition emptyWorld :: world where
  "emptyWorld =
     \<lparr>browserStorage = [], hybridStorage = [], hybridWritable = True, localStorage = [],
      indexedDB = None, logged = []\<rparr>"

text \<open>A store of schema v3: one processed filter, one raw filter, and settings whose
  per-filter version field lacks the scheduled check time.\<close>

definition filtersVersionV3 :: string where
  \<open>filtersVersionV3 = ''{"3":{"lastCheckTime":1000}}''\<close>

definition filtersVersionV4 :: string where
  \<open>filtersVersionV4 = ''{"3":{"lastCheckTime":1000,"lastScheduledCheckTime":1000}}''\<close>

definition storeV3 :: world where
  "storeV3 =
     emptyWorld\<lparr>browserStorage :=
       [(''filterrules_1'', JStr (''line1'' @ [CHR 0x0A] @ ''line2'')),
        (''raw_filterrules_2'', JStr ''rawtext''),
        (''adguard-settings'', JObj [(''filters-version'', JStr filtersVersionV3)])]\<rparr>"

text \<open>The same store when the bulk backend refuses the transaction.\<close>

definition storeV3Unwritable :: world where
  "storeV3Unwritable = storeV3\<lparr>hybridWritable := False\<rparr>"

text \<open>The same settings in a store that holds no filter.\<close>

definition storeV3NoFilters :: world where
  "storeV3NoFilters =
     emptyWorld\<lparr>browserStorage :=
       [(''adguard-settings'', JObj [(''filters-version'', JStr filtersVersionV3)])]\<rparr>"

text \<open>A run of the entry point from one schema version to another, with no client id.\<close>

definition sampleRun :: "int \<Rightarrow> int \<Rightarrow> runInfo" where
  "sampleRun previous current =
     \<lparr>clientId = None, currentAppVersion = ''5.0.0'',
      currentSchemaVersion = current, previousSchemaVersion = previous\<rparr>"

text \<open>A store that holds an empty settings record and nothing else.\<close>

definition storeEmptySettings :: world where
  "storeEmptySettings = emptyWorld\<lparr>browserStorage := [(''adguard-settings'', JObj [])]\<rparr>"

text \<open>A store of schema v0 whose settings name a theme that does not exist.\<close>

definition storeBadTheme :: world where
  "storeBadTheme =
     emptyWorld\<lparr>browserStorage :=
       [(''adguard-settings'', JObj [(''appearance-theme'', JStr ''blue''), (''client-id'', JStr ''abc'')])]\<rparr>"

section \<open>Sub-structures in canonical shape\<close>

text \<open>
  A property list as JavaScript itself would hold it: building an object from the
  properties, one assignment after the other, gives the same list (so the names are
  distinct and in property order).
\<close>

definition js_object :: "'a obj \<Rightarrow> bool" where
  "js_object ob = (obj_assign [] ob = ob)"

text \<open>An object with distinct field names none of which is an array index: its
  properties stay in the order of their creation.\<close>

definition plain_object :: "'a obj \<Rightarrow> bool" where
  "plain_object ob = (distinct (map fst ob) \<and> list_all (\<lambda>(k, v). array_index k = None) ob)"

text \<open>The state of a group as the v0 to v1 step writes it: \<^verbatim>\<open>enabled\<close> comes first and is a
  boolean, and \<^verbatim>\<open>touched\<close> is present with the same value.\<close>

definition canonicalGroupState :: "json \<Rightarrow> bool" where
  "canonicalGroupState e =
     (case e of
        JObj d \<Rightarrow>
          plain_object d \<and> d \<noteq> [] \<and> fst (hd d) = ''enabled'' \<and>
          (case obj_get ''enabled'' d of
             Some (JBool b) \<Rightarrow> obj_get ''touched'' d = Some (JBool b)
           | _ \<Rightarrow> False)
      | _ \<Rightarrow> False)"

definition canonicalGroupsState :: "json \<Rightarrow> bool" where
  "canonicalGroupsState v =
     (case v of
        JObj m \<Rightarrow> js_object m \<and> list_all (\<lambda>(k, e). canonicalGroupState e) m
      | _ \<Rightarrow> False)"

text \<open>The version info of a filter as the v0 to v1 step writes it: \<^verbatim>\<open>lastUpdateTime\<close> is a
  number and is the last property.\<close>

definition canonicalFilterVersion :: "json \<Rightarrow> bool" where
  "canonicalFilterVersion e =
     (case e of
        JObj d \<Rightarrow>
          plain_object d \<and> d \<noteq> [] \<and> fst (last d) = ''lastUpdateTime'' \<and>
          (case snd (last d) of JNum t \<Rightarrow> True | _ \<Rightarrow> False)
      | _ \<Rightarrow> False)"

definition canonicalFiltersVersion :: "json \<Rightarrow> bool" where
  "canonicalFiltersVersion v =
     (case v of
        JObj m \<Rightarrow> js_object m \<and> list_all (\<lambda>(k, e). canonicalFilterVersion e) m
      | _ \<Rightarrow> False)"

text \<open>Sample sub-structures: version info whose \<^verbatim>\<open>lastUpdateTime\<close> is not the last property,
  with what the step makes of it, version info in the order the step writes, and group
  states with \<^verbatim>\<open>touched\<close> different from, and equal to, \<^verbatim>\<open>enabled\<close>.\<close>

definition versionInfoText :: string where
  \<open>versionInfoText =
     ''{"1":{"version":"1.0.0.0","lastCheckTime":1000,"lastUpdateTime":900,"expires":345600}}''\<close>

definition versionInfoMigrated :: string where
  \<open>versionInfoMigrated =
     ''{"1":{"version":"1.0.0.0","lastCheckTime":1000,"expires":345600,"lastUpdateTime":900}}''\<close>

definition versionInfoValue :: json where
  "versionInfoValue =
     JObj [(''1'', JObj [(''version'', JStr ''1.0.0.0''), (''lastCheckTime'', JNum 1000),
                         (''expires'', JNum 345600), (''lastUpdateTime'', JNum 900)])]"

definition groupStateText :: string where
  \<open>groupStateText = ''{"1":{"enabled":true,"touched":false}}''\<close>

definition groupStateMigrated :: string where
  \<open>groupStateMigrated = ''{"1":{"enabled":true,"touched":true}}''\<close>

definition groupStateValue :: json where
  "groupStateValue =
     JObj [(''1'', JObj [(''enabled'', JBool True), (''touched'', JBool True)]),
           (''7'', JObj [(''enabled'', JBool False), (''touched'', JBool False)])]"

section \<open>The keys the steps write\<close>

text \<open>The keys of the rows of the IndexedDB store, under which the v2 to v3 step writes the
  user rules into the primary backend.\<close>

definition userRuleKeys :: "world \<Rightarrow> string list" where
  "userRuleKeys w =
     (case indexedDB w of
        Some (JArr rows) \<Rightarrow>
          List.map_filter
            (\<lambda>row. case row of
                     JObj r \<Rightarrow> (case obj_get ''key'' r of Some (JStr key) \<Rightarrow> Some key | _ \<Rightarrow> None)
                   | _ \<Rightarrow> None)
            rows
      | _ \<Rightarrow> [])"

text \<open>A key that no migration step and no recovery writes or deletes.\<close>

definition untouchedKey :: "env \<Rightarrow> world \<Rightarrow> string \<Rightarrow> bool" where
  "untouchedKey env w k =
     (k \<notin> set movedKeys \<and> k \<noteq> ''adguard-settings'' \<and> k \<noteq> ''sb-lru-cache'' \<and>
      k \<noteq> ADGUARD_SETTINGS_KEY env \<and> k \<notin> set (userRuleKeys w) \<and>
      \<not> startsWith k (RAW_FILTER_KEY_PREFIX env) \<and> \<not> startsWith k (FILTER_KEY_PREFIX env))"

section \<open>What one legacy key contributes to the consolidation\<close>

text \<open>
  A second reading of the two per-key loops of the v3 to v4 step, key by key: the entries
  a key stages and the diagnostic it causes. A key whose filter id cannot be extracted, or
  whose value has the wrong shape, stages nothing. The theorems compare the loops with
  this reading.
\<close>

definition stagedByFilterKey :: "env \<Rightarrow> json obj \<Rightarrow> string \<Rightarrow> json obj" where
  "stagedByFilterKey env entries key =
     (case extractFilterIdFromFilterKey env key of
        None \<Rightarrow> []
      | Some filterId \<Rightarrow>
          (case obj_get key entries of
             Some (JStr text) \<Rightarrow> prepareFilterForStorage env filterId (split_NEWLINE_CHAR_REGEX env text)
           | Some (JArr xs) \<Rightarrow>
               if list_all (\<lambda>x. case x of JStr s \<Rightarrow> True | _ \<Rightarrow> False) xs
               then prepareFilterForStorage env filterId (strings_of xs) else []
           | _ \<Rightarrow> []))"

definition diagnosticOfFilterKey :: "env \<Rightarrow> json obj \<Rightarrow> string \<Rightarrow> diag option" where
  "diagnosticOfFilterKey env entries key =
     (case extractFilterIdFromFilterKey env key of
        None \<Rightarrow> Some (FailedToExtractFilterId key)
      | Some filterId \<Rightarrow>
          (case obj_get key entries of
             Some (JStr text) \<Rightarrow> None
           | Some (JArr xs) \<Rightarrow>
               if list_all (\<lambda>x. case x of JStr s \<Rightarrow> True | _ \<Rightarrow> False) xs
               then None else Some (FailedToParseFilter filterId)
           | _ \<Rightarrow> Some (FailedToParseFilter filterId)))"

definition stagedByRawFilterKey :: "env \<Rightarrow> json obj \<Rightarrow> string \<Rightarrow> json obj" where
  "stagedByRawFilterKey env entries key =
     (case extractRawFilterIdFromFilterKey env key of
        None \<Rightarrow> []
      | Some filterId \<Rightarrow>
          (case obj_get key entries of
             Some (JStr text) \<Rightarrow> [(key, JStr text)]
           | _ \<Rightarrow> []))"

definition diagnosticOfRawFilterKey :: "env \<Rightarrow> json obj \<Rightarrow> string \<Rightarrow> diag option" where
  "diagnosticOfRawFilterKey env entries key =
     (case extractRawFilterIdFromFilterKey env key of
        None \<Rightarrow> Some (FailedToExtractRawFilterId key)
      | Some filterId \<Rightarrow>
          (case obj_get key entries of
             Some (JStr text) \<Rightarrow> None
           | _ \<Rightarrow> Some (FailedToParseRawFilter filterId)))"

text \<open>A store of schema v3 with keys the loops skip: a processed-filter key without an id,
  a processed filter that is a number, a raw filter that is an array, next to one valid
  key of each kind.\<close>

definition storeV3Mixed :: world where
  "storeV3Mixed =
     emptyWorld\<lparr>browserStorage :=
       [(''filterrules_abc'', JStr ''x''),
        (''filterrules_7'', JNum 7),
        (''filterrules_1'', JStr (''line1'' @ [CHR 0x0D, CHR 0x0A] @ ''line2'')),
        (''raw_filterrules_5'', JArr [JStr ''a'']),
        (''raw_filterrules_2'', JStr ''rawtext''),
        (''adguard-settings'', JObj [])]\<rparr>"

section \<open>Properties of objects and of the runner's loop\<close>

subsection \<open>Objects\<close>

lemma set_ins_index: "set (ins_index n k v ob) = insert (k, v) (set ob)"
  by (induction ob) (auto split: option.splits if_splits)

lemma map_of_ins_index:
  "map_of ob k = None \<Longrightarrow> map_of (ins_index n k v ob) k' = (if k' = k then Some v else map_of ob k')"
proof (induction ob)
  case Nil
  then show ?case by simp
next
  case (Cons a ob)
  obtain k1 v1 where a: "a = (k1, v1)" by (cases a)
  with Cons.prems have "k1 \<noteq> k" "map_of ob k = None" by (auto split: if_splits)
  with Cons.IH a show ?case by (cases "array_index k1") auto
qed

lemma map_of_replace:
  "map_of (map (\<lambda>(k', v'). if k' = k then (k', v) else (k', v')) ob) x =
     (if x = k \<and> map_of ob k \<noteq> None then Some v else map_of ob x)"
  by (induction ob) auto

lemma obj_has_iff: "obj_has k ob \<longleftrightarrow> map_of ob k \<noteq> None"
  by (simp add: obj_has_def map_of_eq_None_iff)

lemma obj_get_set: "obj_get k (obj_set k' v ob) = (if k = k' then Some v else obj_get k ob)"
proof (cases "obj_has k' ob")
  case True
  then show ?thesis by (simp add: obj_get_def obj_set_def map_of_replace obj_has_iff)
next
  case False
  then have none: "map_of ob k' = None" by (simp add: obj_has_iff)
  show ?thesis
  proof (cases "array_index k'")
    case None
    with False none show ?thesis
      by (simp add: obj_get_def obj_set_def map_add_def split: option.splits)
  next
    case (Some n)
    with False none show ?thesis by (simp add: obj_get_def obj_set_def map_of_ins_index)
  qed
qed


lemma obj_get_delete: "obj_get k (obj_delete k' ob) = (if k = k' then None else obj_get k ob)"
  by (induction ob) (auto simp: obj_get_def obj_delete_def)

lemma obj_get_None_iff: "obj_get k ob = None \<longleftrightarrow> k \<notin> fst ` set ob"
  by (simp add: obj_get_def map_of_eq_None_iff)

lemma obj_get_remove:
  "obj_get k (filter (\<lambda>(k', v). k' \<notin> set ks) ob) = (if k \<in> set ks then None else obj_get k ob)"
  by (induction ob) (auto simp: obj_get_def)

lemma obj_get_assign:
  "obj_get k (obj_assign target source) =
     (case map_of (rev source) k of Some v \<Rightarrow> Some v | None \<Rightarrow> obj_get k target)"
proof (induction source arbitrary: target)
  case Nil
  then show ?case by (simp add: obj_assign_def)
next
  case (Cons a source)
  obtain k' v' where a: "a = (k', v')" by (cases a)
  have "obj_assign target (a # source) = obj_assign (obj_set k' v' target) source"
    by (simp add: obj_assign_def a)
  then show ?case
    by (auto simp: Cons.IH a obj_get_set map_add_def split: option.splits)
qed

subsection \<open>The loop of the runner\<close>

lemma loop_unfold:
  "migrationLoop reg p c s w =
     (if s < c then
        (case reg s of
           None \<Rightarrow> ([], Inl (CannotFindMigration p c), w)
         | Some a \<Rightarrow>
             (case runSchemaMigration a s (s + 1) w of
                (Inl e, w') \<Rightarrow> ([s], Inl e, w')
              | (Inr u, w') \<Rightarrow>
                  (case migrationLoop reg p c (s + 1) w' of
                     (executed, r) \<Rightarrow> (s # executed, r))))
      else ([], Inr (), w))"
  by (rule migrationLoop.simps)

lemma loop_cases [case_names stop missing fail continue]:
  assumes stop: "\<And>s w. \<not> s < c \<Longrightarrow> P s w ([], Inr (), w)"
    and missing: "\<And>s w. s < c \<Longrightarrow> reg s = None \<Longrightarrow> P s w ([], Inl (CannotFindMigration p c), w)"
    and fail: "\<And>s w a e w'. s < c \<Longrightarrow> reg s = Some a \<Longrightarrow>
                 runSchemaMigration a s (s + 1) w = (Inl e, w') \<Longrightarrow> P s w ([s], Inl e, w')"
    and continue: "\<And>s w a u w1 ex r w'. s < c \<Longrightarrow> reg s = Some a \<Longrightarrow>
                 runSchemaMigration a s (s + 1) w = (Inr u, w1) \<Longrightarrow>
                 migrationLoop reg p c (s + 1) w1 = (ex, r, w') \<Longrightarrow>
                 P (s + 1) w1 (ex, r, w') \<Longrightarrow> P s w (s # ex, r, w')"
  shows "P s w (migrationLoop reg p c s w)"
proof -
  have "nat (c - s) = n \<Longrightarrow> P s w (migrationLoop reg p c s w)" for n
  proof (induction n arbitrary: s w)
    case 0
    then have "\<not> s < c" by simp
    then show ?case using stop[of s w] by (simp add: loop_unfold)
  next
    case (Suc n)
    then have lt: "s < c" and n: "nat (c - (s + 1)) = n" by simp_all
    show ?case
    proof (cases "reg s")
      case None
      then show ?thesis using lt missing[of s w] by (simp add: loop_unfold)
    next
      case (Some a)
      obtain r1 w1 where step: "runSchemaMigration a s (s + 1) w = (r1, w1)" by fastforce
      show ?thesis
      proof (cases r1)
        case (Inl e)
        have "P s w ([s], Inl e, w1)" using fail lt Some step Inl by simp
        then show ?thesis using lt Some step Inl by (simp add: loop_unfold)
      next
        case (Inr u)
        obtain ex2 r2 w2 where rest: "migrationLoop reg p c (s + 1) w1 = (ex2, r2, w2)"
          by (metis prod_cases3)
        have "P (s + 1) w1 (ex2, r2, w2)" using Suc.IH[OF n, of w1] rest by simp
        then have "P s w (s # ex2, r2, w2)" using continue lt Some step Inr rest by simp
        then show ?thesis using lt Some step Inr rest by (simp add: loop_unfold)
      qed
    qed
  qed
  then show ?thesis by simp
qed

lemma runSchemaMigration_Inl:
  "runSchemaMigration a s t w = (Inl e, w') \<Longrightarrow> \<exists>cause. e = MigrationError s t cause"
  by (auto simp: runSchemaMigration_def split: prod.splits sum.splits)

lemma loop_executed:
  "\<exists>k. s - 1 \<le> k \<and> k \<le> max (s - 1) (c - 1) \<and> fst (migrationLoop reg p c s w) = [s..k]"
proof (induction s w rule: loop_cases[where reg = reg and p = p and c = c])
  case (stop s w)
  then show ?case by (intro exI[of _ "s - 1"]) simp
next
  case (missing s w)
  then show ?case by (intro exI[of _ "s - 1"]) simp
next
  case (fail s w a e w')
  then show ?case by (intro exI[of _ s]) simp
next
  case (continue s w a u w1 ex r w')
  then obtain k where "s \<le> k" "k \<le> max s (c - 1)" "ex = [s + 1..k]" by auto
  with continue(1) show ?case by (intro exI[of _ k]) (simp add: upto_rec1)
qed

lemma loop_registered: "\<forall>x \<in> set (fst (migrationLoop reg p c s w)). reg x \<noteq> None"
  by (induction s w rule: loop_cases[where reg = reg and p = p and c = c]) auto

lemma loop_success:
  "fst (snd (migrationLoop reg p c s w)) = Inr u \<longrightarrow> fst (migrationLoop reg p c s w) = [s..c - 1]"
  by (induction s w rule: loop_cases[where reg = reg and p = p and c = c]) (auto simp: upto_rec1)

lemma loop_failure:
  "fst (snd (migrationLoop reg p c s w)) = Inl e \<longrightarrow>
     (e = CannotFindMigration p c \<and>
        (\<exists>v. s \<le> v \<and> v < c \<and> reg v = None \<and> fst (migrationLoop reg p c s w) = [s..v - 1])) \<or>
     (\<exists>k cause. s \<le> k \<and> k < c \<and> e = MigrationError k (k + 1) cause \<and>
        fst (migrationLoop reg p c s w) = [s..k])"
proof (induction s w rule: loop_cases[where reg = reg and p = p and c = c])
  case (stop s w)
  then show ?case by simp
next
  case (missing s w)
  then show ?case by (auto intro!: exI[of _ s])
next
  case (fail s w a e' w')
  then show ?case by (auto dest!: runSchemaMigration_Inl)
next
  case (continue s w a u w1 ex r w')
  show ?case
  proof
    assume "fst (snd (s # ex, r, w')) = Inl e"
    with continue(5) consider
      (a) v where "e = CannotFindMigration p c" "s + 1 \<le> v" "v < c" "reg v = None" "ex = [s + 1..v - 1]"
      | (b) k cause where "s + 1 \<le> k" "k < c" "e = MigrationError k (k + 1) cause" "ex = [s + 1..k]"
      by auto
    then show "(e = CannotFindMigration p c \<and>
        (\<exists>v. s \<le> v \<and> v < c \<and> reg v = None \<and> fst (s # ex, r, w') = [s..v - 1])) \<or>
     (\<exists>k cause. s \<le> k \<and> k < c \<and> e = MigrationError k (k + 1) cause \<and>
        fst (s # ex, r, w') = [s..k])"
    proof cases
      case a
      then have "s # ex = [s..v - 1]" by (simp add: upto_rec1)
      with a continue(1) show ?thesis by (intro disjI1 conjI exI[of _ v]) auto
    next
      case b
      then have "s # ex = [s..k]" by (simp add: upto_rec1)
      with b continue(1) show ?thesis by (intro disjI2 exI[of _ k] exI[of _ cause] conjI) auto
    qed
  qed
qed

subsection \<open>Evaluation on concrete stores\<close>

text \<open>The definitions that the simplifier unfolds to run the model on a concrete input.\<close>

lemmas js_eval = JSON_parse_def skip_ws_def is_ws_def parse_number_def strip_prefix_def
  is_digit_def digit_val_def nat_of_digits_def array_index_def obj_set_def obj_has_def unescape_def
  unicode_escape_def hex_val_def obj_get_def obj_delete_def obj_assign_def
  show_int_def digit_char_def quote_def escape_char_def hex_char_def show_nat.simps

lemmas zod_eval = zod_unknown_def zod_string_def zod_number_def zod_boolean_def zod_optional_def
  zod_or_def zod_enum_def zod_preprocess_def zod_array_def zod_object_def zod_record_def
  string_key_def zod_transform_def on_object_def parse_unknown_record_def List.map_filter_def

lemmas world_eval = logger_def browserStorage_get_def browserStorage_set_def
  browserStorage_removeMultiple_def hybridStorage_setMultiple_def localStorage_removeItem_def
  startsWith_def

lemmas sample_eval = sampleEnv_def emptyWorld_def storeV3_def storeV3NoFilters_def filtersVersionV3_def filtersVersionV4_def
  sampleFilterId_def sampleNumberValidator_def sampleBooleanValidator_def sampleDefaults_def join_lines_def
  sampleRun_def storeEmptySettings_def storeV3Mixed_def storeV3Unwritable_def storeBadTheme_def

lemmas v3_eval = filterSchema_def strings_of_def migrateFilterKey_def migrateRawFilterKey_def
  stageFilters_def filterVersionDataValidatorV3_def number_key_def filtersVersionDataValidatorV3_def
  backfillScheduledCheckTime_def migrateFiltersVersion_def migrateFromV3toV4_def int_of_string_def trim_def

lemmas v2_eval = storeUserRules_def migrateUserRules_def addTrusted_def customFiltersDataTransformerV2_def
  reserialize_def transformField_def migrateFromV2toV3_def

lemmas v1_eval = sbRecordV2_def migrateFromV1toV2_def

lemmas v0_eval = deleteIfSet_def renameField_def addTouched_def groupsStateTransformer_def
  addEnabledInstalled_def filtersStateTransformer_def js_Number_def fixCustomFilter_def
  customFiltersDataTransformer_def addLastUpdateTime_def filtersVersionsTransformer_def
  moveStorageData_def appearanceThemePreprocess_def boolean_of_def number_of_def settingsValidator_def
  bind_result_def editSettings_def movedKeys_def migrateFromV0toV1_def

lemmas run_eval = schemaMigrationMap_def runSchemaMigration_def loop_unfold resetSettings_def
  runMigrations_def persistRunInfo_def update_def

section \<open>The runner: failure and recovery\<close>

lemma loop_outcome:
  assumes "migrationLoop reg p c s w = (ex, r, w')"
  shows "\<forall>x \<in> set ex. reg x \<noteq> None"
    and "\<exists>k. s - 1 \<le> k \<and> k \<le> max (s - 1) (c - 1) \<and> ex = [s..k]"
    and "r = Inr u \<Longrightarrow> ex = [s..c - 1]"
    and "r = Inl e \<Longrightarrow>
           (e = CannotFindMigration p c \<and> (\<exists>v. s \<le> v \<and> v < c \<and> reg v = None \<and> ex = [s..v - 1])) \<or>
           (\<exists>k cause. s \<le> k \<and> k < c \<and> e = MigrationError k (k + 1) cause \<and> ex = [s..k])"
  using loop_registered[of reg p c s w] loop_executed[of s c reg p w]
    loop_success[of reg p c s w u] loop_failure[of reg p c s w e] assms
  by simp_all


lemma resetSettings_frame:
  "browserStorage_get (ADGUARD_SETTINGS_KEY env) (resetSettings env e w) = Some (JObj (defaultSettings env))"
  "k \<noteq> ADGUARD_SETTINGS_KEY env \<Longrightarrow> browserStorage_get k (resetSettings env e w) = browserStorage_get k w"
  "hybridStorage (resetSettings env e w) = hybridStorage w"
  "localStorage (resetSettings env e w) = localStorage w"
  "indexedDB (resetSettings env e w) = indexedDB w"
  "logged (resetSettings env e w) = logged w @ [ErrorWhileMigrate e, ResetSettings]"
  by (simp_all add: resetSettings_def browserStorage_get_def browserStorage_set_def logger_def obj_get_set)


text \<open>
  C3. \<^verbatim>\<open>update\<close> always completes without an error. When the loop of the runner fails, the
  failing step is the last one that ran (or no step is registered for the next version),
  the outcome is the world of the failure with the settings record overwritten by the
  default configuration, and the recovery changes no other key of the primary backend and
  no other backend; it logs the failure once.
\<close>

theorem update_absorbs_failure:
  assumes "migrationLoop (schemaMigrationMap env) (previousSchemaVersion info) (currentSchemaVersion info)
             (previousSchemaVersion info) (persistRunInfo env info w) = (executed, r, w1)"
  shows "fst (snd (update env info w)) = Inr () \<and> fst (update env info w) = executed \<and>
         (\<forall>e. r = Inl e \<longrightarrow>
            snd (snd (update env info w)) = resetSettings env e w1 \<and>
            ((\<exists>cause. executed \<noteq> [] \<and> e = MigrationError (last executed) (last executed + 1) cause) \<or>
             (e = CannotFindMigration (previousSchemaVersion info) (currentSchemaVersion info) \<and>
              schemaMigrationMap env (previousSchemaVersion info + int (length executed)) = None)) \<and>
            browserStorage_get (ADGUARD_SETTINGS_KEY env) (resetSettings env e w1) =
              Some (JObj (defaultSettings env)) \<and>
            (\<forall>k. k \<noteq> ADGUARD_SETTINGS_KEY env \<longrightarrow>
               browserStorage_get k (resetSettings env e w1) = browserStorage_get k w1) \<and>
            hybridStorage (resetSettings env e w1) = hybridStorage w1 \<and>
            localStorage (resetSettings env e w1) = localStorage w1 \<and>
            logged (resetSettings env e w1) = logged w1 @ [ErrorWhileMigrate e, ResetSettings])"
proof -
  let ?p = "previousSchemaVersion info" and ?c = "currentSchemaVersion info"
  have upd: "update env info w =
      (case r of Inl e \<Rightarrow> (executed, Inr (), resetSettings env e w1) | Inr u \<Rightarrow> (executed, Inr u, w1))"
    using assms by (simp add: update_def runMigrations_def split: sum.splits)
  have ok: "fst (snd (update env info w)) = Inr ()" "fst (update env info w) = executed"
    by (simp_all add: upd split: sum.splits)
  have last: "(\<exists>cause. executed \<noteq> [] \<and> e = MigrationError (last executed) (last executed + 1) cause) \<or>
      (e = CannotFindMigration ?p ?c \<and> schemaMigrationMap env (?p + int (length executed)) = None)"
    if "r = Inl e" for e
  proof -
    from loop_outcome(4)[OF assms that] consider
      (missing) v where "e = CannotFindMigration ?p ?c" "?p \<le> v" "v < ?c"
        "schemaMigrationMap env v = None" "executed = [?p..v - 1]"
      | (failed) k cause where "?p \<le> k" "k < ?c" "e = MigrationError k (k + 1) cause" "executed = [?p..k]"
      by blast
    then show ?thesis
    proof cases
      case missing
      then have "?p + int (length executed) = v" by simp
      with missing show ?thesis by simp
    next
      case failed
      then have ne: "executed \<noteq> []" and lk: "last executed = k" by (simp_all add: upto_rec2)
      have "e = MigrationError (last executed) (last executed + 1) cause"
        using failed(3) lk by simp
      with ne show ?thesis by blast
    qed
  qed
  show ?thesis
    using ok last by (auto simp: upd resetSettings_frame)
qed

lemma failing_run_0_1:
  "migrationLoop (schemaMigrationMap sampleEnv) 0 1 0 (persistRunInfo sampleEnv (sampleRun 0 1) emptyWorld) =
     ([0], Inl (MigrationError 0 1 ZodError),
      logger (SchemaMigrationFailed (MigrationError 0 1 ZodError))
        (persistRunInfo sampleEnv (sampleRun 0 1) emptyWorld))"
  by (simp add: js_eval zod_eval world_eval sample_eval v0_eval run_eval Let_def)

theorem update_absorbs_failure_witness:
  "fst (snd (update sampleEnv (sampleRun 0 1) emptyWorld)) = Inr () \<and>
   fst (update sampleEnv (sampleRun 0 1) emptyWorld) = [0] \<and>
   browserStorage_get ''adguard-settings'' (snd (snd (update sampleEnv (sampleRun 0 1) emptyWorld))) =
     Some (JObj sampleDefaults) \<and>
   browserStorage_get ''schema-version'' (snd (snd (update sampleEnv (sampleRun 0 1) emptyWorld))) =
     Some (JNum 1) \<and>
   logged (snd (snd (update sampleEnv (sampleRun 0 1) emptyWorld))) =
     [SchemaMigrationFailed (MigrationError 0 1 ZodError),
      ErrorWhileMigrate (MigrationError 0 1 ZodError), ResetSettings]"
proof -
  have run: "migrationLoop (schemaMigrationMap sampleEnv) (previousSchemaVersion (sampleRun 0 1))
      (currentSchemaVersion (sampleRun 0 1)) (previousSchemaVersion (sampleRun 0 1))
      (persistRunInfo sampleEnv (sampleRun 0 1) emptyWorld) =
     ([0], Inl (MigrationError 0 1 ZodError),
      logger (SchemaMigrationFailed (MigrationError 0 1 ZodError))
        (persistRunInfo sampleEnv (sampleRun 0 1) emptyWorld))"
    using failing_run_0_1 by (simp add: sampleRun_def)
  from update_absorbs_failure[OF run]
  show ?thesis
    by (simp add: sampleEnv_def sampleRun_def emptyWorld_def persistRunInfo_def world_eval js_eval)
qed




text \<open>
  C2, as amended. For \<open>p \<le> c\<close> the runner invokes the registered steps for the versions
  \<open>p, p + 1, \<dots>\<close> in ascending order, each once, and nothing else. When the loop ends
  without a failure these are exactly the steps for \<open>p, \<dots>, c - 1\<close>; when a step fails it is
  the last one invoked; when a version has no registered step, the steps before it are
  the ones invoked. When \<open>p = c\<close> nothing is invoked and the world is unchanged.
\<close>

theorem runner_order:
  assumes "p \<le> c" and "migrationLoop (schemaMigrationMap env) p c p w = (executed, r, w1)"
  shows "fst (runMigrations env c p w) = executed \<and>
         (\<exists>k. p - 1 \<le> k \<and> k < c \<and> executed = [p..k]) \<and>
         (\<forall>x \<in> set executed. schemaMigrationMap env x \<noteq> None) \<and>
         (r = Inr () \<longrightarrow> executed = [p..c - 1] \<and> runMigrations env c p w = (executed, Inr (), w1)) \<and>
         (\<forall>e. r = Inl e \<longrightarrow>
            (e = CannotFindMigration p c \<and>
               (\<exists>v. p \<le> v \<and> v < c \<and> schemaMigrationMap env v = None \<and> executed = [p..v - 1])) \<or>
            (\<exists>k cause. p \<le> k \<and> k < c \<and> e = MigrationError k (k + 1) cause \<and> executed = [p..k])) \<and>
         (p = c \<longrightarrow> executed = [] \<and> runMigrations env c p w = ([], Inr (), w))"
proof -
  note out = loop_outcome[OF assms(2)]
  have fst: "fst (runMigrations env c p w) = executed"
    using assms(2) by (simp add: runMigrations_def split: sum.splits)
  obtain k where "p - 1 \<le> k" "k \<le> max (p - 1) (c - 1)" "executed = [p..k]" using out(2) by blast
  with assms(1) have pre: "\<exists>k. p - 1 \<le> k \<and> k < c \<and> executed = [p..k]"
    by (intro exI[of _ k]) auto
  have ok: "executed = [p..c - 1] \<and> runMigrations env c p w = (executed, Inr (), w1)" if "r = Inr ()"
    using out(3)[OF that] assms(2) that by (simp add: runMigrations_def)
  have same: "executed = [] \<and> runMigrations env c p w = ([], Inr (), w)" if "p = c"
  proof -
    have stop: "migrationLoop (schemaMigrationMap env) p c p w = ([], Inr (), w)"
      using that by (subst loop_unfold) simp
    with assms(2) have "executed = []" by simp
    with stop show ?thesis by (simp add: runMigrations_def)
  qed
  show ?thesis using fst pre out(1) ok out(4) same by blast
qed

lemma run_1_4:
  "migrationLoop (schemaMigrationMap sampleEnv) 1 4 1 storeEmptySettings =
     ([1, 2, 3], Inr (),
      storeEmptySettings\<lparr>logged := [ErrorWhileMigrateUserRules, NoFiltersToMigrate]\<rparr>)"
  by (simp add: js_eval zod_eval world_eval sample_eval v1_eval v2_eval v3_eval run_eval Let_def)

theorem runner_order_witness:
  "fst (runMigrations sampleEnv 4 1 storeEmptySettings) = [1, 2, 3] \<and>
   runMigrations sampleEnv 4 1 storeEmptySettings =
     ([1, 2, 3], Inr (), storeEmptySettings\<lparr>logged := [ErrorWhileMigrateUserRules, NoFiltersToMigrate]\<rparr>)"
proof -
  have "[1..4 - 1] = [1, 2, 3::int]" by (simp add: upto_rec1)
  with runner_order[OF _ run_1_4] show ?thesis by simp
qed

lemma run_0_2:
  "migrationLoop (schemaMigrationMap sampleEnv) 0 2 0 emptyWorld =
     ([0], Inl (MigrationError 0 1 ZodError),
      emptyWorld\<lparr>logged := [SchemaMigrationFailed (MigrationError 0 1 ZodError)]\<rparr>)"
  by (simp add: js_eval zod_eval world_eval sample_eval v0_eval run_eval Let_def)

theorem runner_order_counterexample:
  "(0::int) \<le> 2 \<and> schemaMigrationMap sampleEnv 1 \<noteq> None \<and>
   fst (runMigrations sampleEnv 2 0 emptyWorld) = [0] \<and>
   fst (runMigrations sampleEnv 2 0 emptyWorld) \<noteq> [0, 1]"
  using run_0_2 by (simp add: runMigrations_def schemaMigrationMap_def)

section \<open>The consolidation of the filters (v3 to v4)\<close>

lemma obj_assign_Nil: "obj_assign target [] = target"
  by (simp add: obj_assign_def)

lemma obj_assign_Cons: "obj_assign target ((k, v) # source) = obj_assign (obj_set k v target) source"
  by (simp add: obj_assign_def)

lemma obj_assign_append: "obj_assign target (a @ b) = obj_assign (obj_assign target a) b"
  by (simp add: obj_assign_def)

lemma strings_filter:
  "list_all (\<lambda>x. case x of JStr s \<Rightarrow> True | _ \<Rightarrow> False) xs \<Longrightarrow>
     List.map_filter (\<lambda>r. case r of None \<Rightarrow> None | Some y \<Rightarrow> y) (map (\<lambda>e. zod_string (Some e)) xs) = xs"
  by (induction xs) (auto simp: List.map_filter_def zod_string_def split: json.splits)

lemma strings_valid:
  "list_ex (\<lambda>r. r = None \<or> r = Some None) (map (\<lambda>e. zod_string (Some e)) xs) \<longleftrightarrow>
     \<not> list_all (\<lambda>x. case x of JStr s \<Rightarrow> True | _ \<Rightarrow> False) xs"
  by (induction xs) (auto simp: zod_string_def split: json.splits)

lemma zod_array_string:
  "zod_array zod_string (Some (JArr xs)) =
     (if list_all (\<lambda>x. case x of JStr s \<Rightarrow> True | _ \<Rightarrow> False) xs then Some (Some (JArr xs)) else None)"
  by (simp add: zod_array_def Let_def strings_filter strings_valid)

lemma filterSchema_cases:
  "filterSchema x =
     (case x of
        Some (JStr text) \<Rightarrow> Some x
      | Some (JArr xs) \<Rightarrow>
          if list_all (\<lambda>x. case x of JStr s \<Rightarrow> True | _ \<Rightarrow> False) xs then Some x else None
      | _ \<Rightarrow> None)"
proof (cases x)
  case None
  then show ?thesis by (simp add: filterSchema_def zod_or_def zod_string_def zod_array_def)
next
  case (Some j)
  then show ?thesis
    by (cases j) (simp_all add: filterSchema_def zod_or_def zod_string_def zod_array_string,
        simp_all add: zod_array_def)
qed

lemma migrateFilterKey_reading:
  "migrateFilterKey env entries key (migrationData, w) =
     (obj_assign migrationData (stagedByFilterKey env entries key),
      (case diagnosticOfFilterKey env entries key of None \<Rightarrow> w | Some d \<Rightarrow> logger d w))"
  by (auto simp: migrateFilterKey_def stagedByFilterKey_def diagnosticOfFilterKey_def filterSchema_cases
      obj_assign_Nil split: option.splits json.splits)

lemma migrateRawFilterKey_reading:
  "migrateRawFilterKey env entries key (migrationData, w) =
     (obj_assign migrationData (stagedByRawFilterKey env entries key),
      (case diagnosticOfRawFilterKey env entries key of None \<Rightarrow> w | Some d \<Rightarrow> logger d w))"
  by (auto simp: migrateRawFilterKey_def stagedByRawFilterKey_def diagnosticOfRawFilterKey_def
      zod_string_def obj_assign_Nil obj_assign_Cons split: option.splits json.splits)

lemma logger_append: "(case d of None \<Rightarrow> w | Some x \<Rightarrow> logger x w) =
    w\<lparr>logged := logged w @ (case d of None \<Rightarrow> [] | Some x \<Rightarrow> [x])\<rparr>"
  by (cases d) (simp_all add: logger_def)

lemma fold_filter_keys:
  "foldl (\<lambda>st key. migrateFilterKey env entries key st) (md, w) keys =
     (obj_assign md (concat (map (stagedByFilterKey env entries) keys)),
      w\<lparr>logged := logged w @ List.map_filter (diagnosticOfFilterKey env entries) keys\<rparr>)"
proof (induction keys arbitrary: md w)
  case Nil
  then show ?case by (simp add: obj_assign_Nil List.map_filter_def)
next
  case (Cons key keys)
  show ?case
    by (cases "diagnosticOfFilterKey env entries key")
      (simp_all add: migrateFilterKey_reading Cons.IH obj_assign_append List.map_filter_def logger_def)
qed

lemma fold_raw_filter_keys:
  "foldl (\<lambda>st key. migrateRawFilterKey env entries key st) (md, w) keys =
     (obj_assign md (concat (map (stagedByRawFilterKey env entries) keys)),
      w\<lparr>logged := logged w @ List.map_filter (diagnosticOfRawFilterKey env entries) keys\<rparr>)"
proof (induction keys arbitrary: md w)
  case Nil
  then show ?case by (simp add: obj_assign_Nil List.map_filter_def)
next
  case (Cons key keys)
  show ?case
    by (cases "diagnosticOfRawFilterKey env entries key")
      (simp_all add: migrateRawFilterKey_reading Cons.IH obj_assign_append List.map_filter_def logger_def)
qed

lemma stageFilters_reading:
  "stageFilters env entries filterKeys rawFilterKeys w =
     (obj_assign []
        (concat (map (stagedByFilterKey env entries) filterKeys) @
         concat (map (stagedByRawFilterKey env entries) rawFilterKeys)),
      w\<lparr>logged := logged w @ List.map_filter (diagnosticOfFilterKey env entries) filterKeys @
                   List.map_filter (diagnosticOfRawFilterKey env entries) rawFilterKeys\<rparr>)"
  by (simp add: stageFilters_def fold_filter_keys fold_raw_filter_keys obj_assign_append)


lemma parse_unknown_record_None: "parse_unknown_record None = Inl ZodError"
  by (simp add: parse_unknown_record_def zod_record_def)

lemma migrateFiltersVersion_frame:
  "hybridStorage (snd (migrateFiltersVersion env w)) = hybridStorage w"
  "hybridWritable (snd (migrateFiltersVersion env w)) = hybridWritable w"
  "localStorage (snd (migrateFiltersVersion env w)) = localStorage w"
  "indexedDB (snd (migrateFiltersVersion env w)) = indexedDB w"
  "k \<noteq> ADGUARD_SETTINGS_KEY env \<Longrightarrow>
     browserStorage_get k (snd (migrateFiltersVersion env w)) = browserStorage_get k w"
  by (auto simp: migrateFiltersVersion_def logger_def browserStorage_set_def browserStorage_get_def
      obj_get_set split: sum.splits option.splits json.splits)

lemma migrateFiltersVersion_no_settings:
  "browserStorage_get (ADGUARD_SETTINGS_KEY env) w = None \<Longrightarrow>
     migrateFiltersVersion env w = (Inl ZodError, w)"
  by (simp add: migrateFiltersVersion_def parse_unknown_record_None)

lemma migrateFromV3toV4_unfold:
  assumes "rawFilterKeys = filter (\<lambda>key. startsWith key (RAW_FILTER_KEY_PREFIX env)) (map fst (browserStorage w))"
    and "filterKeys = filter (\<lambda>key. startsWith key (FILTER_KEY_PREFIX env)) (map fst (browserStorage w))"
    and "stageFilters env (browserStorage w) filterKeys rawFilterKeys w = (migrationData, w1)"
  shows "migrateFromV3toV4 env w =
     (if rawFilterKeys = [] \<and> filterKeys = [] then (Inr (), logger NoFiltersToMigrate w)
      else if \<not> hybridWritable w then (Inl TransactionFailed, w1)
      else migrateFiltersVersion env
             (logger FiltersMigrated
                (browserStorage_removeMultiple (rawFilterKeys @ filterKeys)
                   (w1\<lparr>hybridStorage := obj_assign (hybridStorage w) migrationData\<rparr>))))"
proof -
  have "hybridWritable w1 = hybridWritable w" "hybridStorage w1 = hybridStorage w"
    using assms(3) by (auto simp: stageFilters_reading)
  then show ?thesis
    using assms by (simp add: migrateFromV3toV4_def Let_def hybridStorage_setMultiple_def)
qed

text \<open>
  C5. When the store holds filter keys, the staged entries are written by one call of
  \<^verbatim>\<open>setMultiple\<close>. If that transaction fails, the step fails with the transaction error
  and the primary backend is exactly as before, with every legacy key in place; if it
  succeeds, the bulk backend holds the staged entries, every enumerated legacy key is gone
  from the primary backend, and no other key except the settings record has changed. So
  the primary backend changes only after a successful transaction.
\<close>

theorem transaction_failure_keeps_legacy_keys:
  assumes "rawFilterKeys = filter (\<lambda>key. startsWith key (RAW_FILTER_KEY_PREFIX env)) (map fst (browserStorage w))"
    and "filterKeys = filter (\<lambda>key. startsWith key (FILTER_KEY_PREFIX env)) (map fst (browserStorage w))"
    and "rawFilterKeys @ filterKeys \<noteq> []"
  shows "(\<not> hybridWritable w \<longrightarrow>
            fst (migrateFromV3toV4 env w) = Inl TransactionFailed \<and>
            browserStorage (snd (migrateFromV3toV4 env w)) = browserStorage w \<and>
            hybridStorage (snd (migrateFromV3toV4 env w)) = hybridStorage w) \<and>
         (hybridWritable w \<longrightarrow>
            hybridStorage (snd (migrateFromV3toV4 env w)) =
              obj_assign (hybridStorage w)
                (fst (stageFilters env (browserStorage w) filterKeys rawFilterKeys w)) \<and>
            (\<forall>k \<in> set (rawFilterKeys @ filterKeys).
               browserStorage_get k (snd (migrateFromV3toV4 env w)) = None) \<and>
            (\<forall>k. k \<notin> set (rawFilterKeys @ filterKeys) \<longrightarrow> k \<noteq> ADGUARD_SETTINGS_KEY env \<longrightarrow>
               browserStorage_get k (snd (migrateFromV3toV4 env w)) = browserStorage_get k w))"
proof -
  obtain migrationData w1 where
    st: "stageFilters env (browserStorage w) filterKeys rawFilterKeys w = (migrationData, w1)"
    by fastforce
  have w1: "browserStorage w1 = browserStorage w" "hybridStorage w1 = hybridStorage w"
    using st by (auto simp: stageFilters_reading)
  have ne: "\<not> (rawFilterKeys = [] \<and> filterKeys = [])" using assms(3) by auto
  note step = migrateFromV3toV4_unfold[OF assms(1,2) st]
  let ?w2 = "logger FiltersMigrated
                (browserStorage_removeMultiple (rawFilterKeys @ filterKeys)
                   (w1\<lparr>hybridStorage := obj_assign (hybridStorage w) migrationData\<rparr>))"
  have get2: "browserStorage_get k ?w2 = (if k \<in> set (rawFilterKeys @ filterKeys) then None else browserStorage_get k w)" for k
    using obj_get_remove[of k "rawFilterKeys @ filterKeys" "browserStorage w"]
    by (simp add: logger_def browserStorage_removeMultiple_def browserStorage_get_def w1)
  have hyb2: "hybridStorage ?w2 = obj_assign (hybridStorage w) migrationData"
    by (simp add: logger_def browserStorage_removeMultiple_def)
  have fail: "fst (migrateFromV3toV4 env w) = Inl TransactionFailed \<and>
      browserStorage (snd (migrateFromV3toV4 env w)) = browserStorage w \<and>
      hybridStorage (snd (migrateFromV3toV4 env w)) = hybridStorage w" if "\<not> hybridWritable w"
    using that ne w1 by (simp add: step del: de_Morgan_conj)
  have mf: "migrateFromV3toV4 env w = migrateFiltersVersion env ?w2" if "hybridWritable w"
    using that ne by (simp add: step del: de_Morgan_conj)
  have gone: "browserStorage_get k (snd (migrateFromV3toV4 env w)) = None"
    if "hybridWritable w" "k \<in> set (rawFilterKeys @ filterKeys)" for k
  proof (cases "k = ADGUARD_SETTINGS_KEY env")
    case True
    have none: "browserStorage_get k ?w2 = None" using get2[of k] that(2) by simp
    then have "migrateFiltersVersion env ?w2 = (Inl ZodError, ?w2)"
      using migrateFiltersVersion_no_settings[of env ?w2] True by simp
    then have "snd (migrateFromV3toV4 env w) = ?w2" using mf[OF that(1)] by simp
    with none show ?thesis by simp
  next
    case False
    have "browserStorage_get k (snd (migrateFromV3toV4 env w)) = browserStorage_get k ?w2"
      using migrateFiltersVersion_frame(5)[OF False, of ?w2] mf[OF that(1)] by simp
    with get2[of k] that(2) show ?thesis by simp
  qed
  have kept: "browserStorage_get k (snd (migrateFromV3toV4 env w)) = browserStorage_get k w"
    if "hybridWritable w" "k \<notin> set (rawFilterKeys @ filterKeys)" "k \<noteq> ADGUARD_SETTINGS_KEY env" for k
  proof -
    have "browserStorage_get k (snd (migrateFromV3toV4 env w)) = browserStorage_get k ?w2"
      using migrateFiltersVersion_frame(5)[OF that(3), of ?w2] mf[OF that(1)] by simp
    with get2[of k] that(2) show ?thesis by simp
  qed
  have hyb: "hybridStorage (snd (migrateFromV3toV4 env w)) =
      obj_assign (hybridStorage w) (fst (stageFilters env (browserStorage w) filterKeys rawFilterKeys w))"
    if "hybridWritable w"
    using migrateFiltersVersion_frame(1)[of env ?w2] mf[OF that] hyb2 st by simp
  show ?thesis using fail gone kept hyb by blast
qed


lemma storeV3_keys:
  "filter (\<lambda>key. startsWith key (RAW_FILTER_KEY_PREFIX sampleEnv)) (map fst (browserStorage storeV3)) =
     [''raw_filterrules_2'']"
  "filter (\<lambda>key. startsWith key (FILTER_KEY_PREFIX sampleEnv)) (map fst (browserStorage storeV3)) =
     [''filterrules_1'']"
  "browserStorage storeV3Unwritable = browserStorage storeV3"
  "hybridStorage storeV3Unwritable = []" "hybridStorage storeV3 = []"
  "\<not> hybridWritable storeV3Unwritable" "hybridWritable storeV3"
  by (simp_all add: sample_eval world_eval)

lemma storeV3_staged:
  "fst (stageFilters sampleEnv (browserStorage storeV3) [''filterrules_1''] [''raw_filterrules_2''] storeV3) =
     [(''filterrules_1'', JStr (''line1'' @ [CHR 0x0A] @ ''line2'')), (''raw_filterrules_2'', JStr ''rawtext'')]"
  by (simp add: js_eval zod_eval world_eval sample_eval v3_eval)

theorem transaction_failure_keeps_legacy_keys_witness:
  "fst (migrateFromV3toV4 sampleEnv storeV3Unwritable) = Inl TransactionFailed \<and>
   browserStorage (snd (migrateFromV3toV4 sampleEnv storeV3Unwritable)) = browserStorage storeV3Unwritable \<and>
   hybridStorage (snd (migrateFromV3toV4 sampleEnv storeV3Unwritable)) = [] \<and>
   hybridStorage (snd (migrateFromV3toV4 sampleEnv storeV3)) =
     [(''filterrules_1'', JStr (''line1'' @ [CHR 0x0A] @ ''line2'')), (''raw_filterrules_2'', JStr ''rawtext'')] \<and>
   browserStorage_get ''filterrules_1'' (snd (migrateFromV3toV4 sampleEnv storeV3)) = None \<and>
   browserStorage_get ''raw_filterrules_2'' (snd (migrateFromV3toV4 sampleEnv storeV3)) = None"
proof -
  have a: "[''raw_filterrules_2''] = filter (\<lambda>key. startsWith key (RAW_FILTER_KEY_PREFIX sampleEnv))
      (map fst (browserStorage storeV3Unwritable))"
    and b: "[''filterrules_1''] = filter (\<lambda>key. startsWith key (FILTER_KEY_PREFIX sampleEnv))
      (map fst (browserStorage storeV3Unwritable))"
    and a': "[''raw_filterrules_2''] = filter (\<lambda>key. startsWith key (RAW_FILTER_KEY_PREFIX sampleEnv))
      (map fst (browserStorage storeV3))"
    and b': "[''filterrules_1''] = filter (\<lambda>key. startsWith key (FILTER_KEY_PREFIX sampleEnv))
      (map fst (browserStorage storeV3))"
    by (simp_all only: storeV3_keys)
  from transaction_failure_keeps_legacy_keys[OF a b] transaction_failure_keeps_legacy_keys[OF a' b']
  show ?thesis
    by (simp add: storeV3_keys(3-7) storeV3_staged js_eval)
qed

text \<open>
  C8. The two per-key loops stage exactly what the keys contribute one by one, in the
  order of the keys: a key whose filter id cannot be extracted, a processed-filter key
  whose value is neither a string nor an array of strings, and a raw-filter key whose value
  is not a string contribute nothing and cause one diagnostic each, and the loops go on to
  the next key; a processed filter that is a string is split by the newline pattern before
  it is staged, an array of strings is staged as it is, a raw filter is staged under its
  own key. The loops change nothing but the log, and the step goes on to write the staged
  entries.
\<close>

theorem stageFilters_skips_invalid_keys:
  "fst (stageFilters env entries filterKeys rawFilterKeys w) =
     obj_assign []
       (concat (map (stagedByFilterKey env entries) filterKeys) @
        concat (map (stagedByRawFilterKey env entries) rawFilterKeys)) \<and>
   snd (stageFilters env entries filterKeys rawFilterKeys w) =
     w\<lparr>logged := logged w @ List.map_filter (diagnosticOfFilterKey env entries) filterKeys @
                  List.map_filter (diagnosticOfRawFilterKey env entries) rawFilterKeys\<rparr> \<and>
   (extractFilterIdFromFilterKey env key = None \<longrightarrow>
      stagedByFilterKey env entries key = [] \<and>
      diagnosticOfFilterKey env entries key = Some (FailedToExtractFilterId key)) \<and>
   (extractFilterIdFromFilterKey env key = Some filterId \<and> filterSchema (obj_get key entries) = None \<longrightarrow>
      stagedByFilterKey env entries key = [] \<and>
      diagnosticOfFilterKey env entries key = Some (FailedToParseFilter filterId)) \<and>
   (extractFilterIdFromFilterKey env key = Some filterId \<and> obj_get key entries = Some (JStr text) \<longrightarrow>
      stagedByFilterKey env entries key =
        prepareFilterForStorage env filterId (split_NEWLINE_CHAR_REGEX env text) \<and>
      diagnosticOfFilterKey env entries key = None) \<and>
   (extractFilterIdFromFilterKey env key = Some filterId \<and> obj_get key entries = Some (JArr (map JStr ls)) \<longrightarrow>
      stagedByFilterKey env entries key = prepareFilterForStorage env filterId ls \<and>
      diagnosticOfFilterKey env entries key = None) \<and>
   (extractRawFilterIdFromFilterKey env key = None \<longrightarrow>
      stagedByRawFilterKey env entries key = [] \<and>
      diagnosticOfRawFilterKey env entries key = Some (FailedToExtractRawFilterId key)) \<and>
   (extractRawFilterIdFromFilterKey env key = Some filterId \<and> zod_string (obj_get key entries) = None \<longrightarrow>
      stagedByRawFilterKey env entries key = [] \<and>
      diagnosticOfRawFilterKey env entries key = Some (FailedToParseRawFilter filterId)) \<and>
   (extractRawFilterIdFromFilterKey env key = Some filterId \<and> obj_get key entries = Some (JStr text) \<longrightarrow>
      stagedByRawFilterKey env entries key = [(key, JStr text)] \<and>
      diagnosticOfRawFilterKey env entries key = None)"
proof -
  have strs: "list_all (\<lambda>x. case x of JStr s \<Rightarrow> True | _ \<Rightarrow> False) (map JStr ls)"
    by (induction ls) simp_all
  have strs_of: "strings_of (map JStr ls) = ls"
    by (induction ls) (simp_all add: strings_of_def List.map_filter_def)
  show ?thesis
    by (auto simp: stageFilters_reading stagedByFilterKey_def diagnosticOfFilterKey_def
        stagedByRawFilterKey_def diagnosticOfRawFilterKey_def filterSchema_cases zod_string_def
        strs strs_of split: option.splits json.splits if_splits)
qed

theorem stageFilters_skips_invalid_keys_witness:
  "stageFilters sampleEnv (browserStorage storeV3Mixed)
     [''filterrules_abc'', ''filterrules_7'', ''filterrules_1'']
     [''raw_filterrules_5'', ''raw_filterrules_2''] storeV3Mixed =
     ([(''filterrules_1'', JStr (''line1'' @ [CHR 0x0A] @ ''line2'')), (''raw_filterrules_2'', JStr ''rawtext'')],
      storeV3Mixed\<lparr>logged :=
        [FailedToExtractFilterId ''filterrules_abc'', FailedToParseFilter 7, FailedToParseRawFilter 5]\<rparr>)"
proof -
  have "stageFilters sampleEnv (browserStorage storeV3Mixed)
     [''filterrules_abc'', ''filterrules_7'', ''filterrules_1'']
     [''raw_filterrules_5'', ''raw_filterrules_2''] storeV3Mixed =
     (obj_assign []
       (concat (map (stagedByFilterKey sampleEnv (browserStorage storeV3Mixed))
          [''filterrules_abc'', ''filterrules_7'', ''filterrules_1'']) @
        concat (map (stagedByRawFilterKey sampleEnv (browserStorage storeV3Mixed))
          [''raw_filterrules_5'', ''raw_filterrules_2''])),
      storeV3Mixed\<lparr>logged := logged storeV3Mixed @
         List.map_filter (diagnosticOfFilterKey sampleEnv (browserStorage storeV3Mixed))
           [''filterrules_abc'', ''filterrules_7'', ''filterrules_1''] @
         List.map_filter (diagnosticOfRawFilterKey sampleEnv (browserStorage storeV3Mixed))
           [''raw_filterrules_5'', ''raw_filterrules_2'']\<rparr>)"
    using stageFilters_skips_invalid_keys[of sampleEnv "browserStorage storeV3Mixed"
        "[''filterrules_abc'', ''filterrules_7'', ''filterrules_1'']"
        "[''raw_filterrules_5'', ''raw_filterrules_2'']" storeV3Mixed]
    by (metis prod.collapse)
  then show ?thesis
    by (simp add: stagedByFilterKey_def stagedByRawFilterKey_def diagnosticOfFilterKey_def
        diagnosticOfRawFilterKey_def js_eval zod_eval world_eval sample_eval v3_eval)
qed

section \<open>The check times of the filters (v3 to v4)\<close>

lemma map_filter_all_Some: "List.map_filter (\<lambda>x. Some (f x)) xs = map f xs"
  by (simp add: List.map_filter_def)

lemma parse_unknown_record_obj: "parse_unknown_record (Some (JObj settings)) = Inr (obj_assign [] settings)"
proof -
  have a: "\<not> list_ex (\<lambda>(k, r). k = None \<or> r = None) (map (\<lambda>(k, v). (string_key k, zod_unknown (Some v))) settings)"
    by (induction settings) (auto simp: string_key_def zod_unknown_def)
  have b: "List.map_filter (\<lambda>(k, r). case (k, r) of (Some k', Some (Some y)) \<Rightarrow> Some (k', y) | _ \<Rightarrow> None)
             (map (\<lambda>(k, v). (string_key k, zod_unknown (Some v))) settings) = settings"
    by (induction settings) (auto simp: string_key_def zod_unknown_def List.map_filter_def)
  show ?thesis
    using a b by (simp add: parse_unknown_record_def zod_record_def Let_def)
qed

lemma values_obj_set: "snd ` set (obj_set k v ob) \<subseteq> insert v (snd ` set ob)"
proof (cases "obj_has k ob")
  case True
  then show ?thesis by (auto simp: obj_set_def split: if_splits)
next
  case False
  then show ?thesis by (cases "array_index k") (auto simp: obj_set_def set_ins_index)
qed

lemma values_obj_assign: "snd ` set (obj_assign target source) \<subseteq> snd ` set target \<union> snd ` set source"
proof (induction source arbitrary: target)
  case Nil
  then show ?case by (simp add: obj_assign_Nil)
next
  case (Cons a source)
  obtain k v where a: "a = (k, v)" by (cases a)
  show ?case
    using Cons.IH[of "obj_set k v target"] values_obj_set[of k v target]
    by (auto simp: a obj_assign_Cons)
qed

lemma backfill_missing:
  "obj_get ''lastScheduledCheckTime'' d = None \<Longrightarrow> obj_get ''lastCheckTime'' d = Some t \<Longrightarrow>
     backfillScheduledCheckTime d = d @ [(''lastScheduledCheckTime'', t)]"
  by (simp add: backfillScheduledCheckTime_def obj_set_def obj_has_iff obj_get_def array_index_def is_digit_def)

lemma backfill_present:
  "obj_get ''lastScheduledCheckTime'' d = Some t \<Longrightarrow> backfillScheduledCheckTime d = d"
  by (simp add: backfillScheduledCheckTime_def)

lemma zod_number_Some: "zod_number x = Some a \<Longrightarrow> \<exists>t. a = Some (JNum t)"
proof (cases x)
  case None
  then show "zod_number x = Some a \<Longrightarrow> ?thesis" by (simp add: zod_number_def)
next
  case (Some j)
  then show "zod_number x = Some a \<Longrightarrow> ?thesis" by (cases j) (auto simp: zod_number_def)
qed

lemma filterVersionData_shape:
  "filterVersionDataValidatorV3 (Some (JObj data)) =
     (case (zod_number (obj_get ''lastCheckTime'' data),
            zod_optional zod_number (obj_get ''lastScheduledCheckTime'' data)) of
        (Some a, Some b) \<Rightarrow>
          Some (Some (JObj (obj_assign []
            ((case a of Some y \<Rightarrow> [(''lastCheckTime'', y)] | None \<Rightarrow> []) @
             (case b of Some y \<Rightarrow> [(''lastScheduledCheckTime'', y)] | None \<Rightarrow> []) @
             filter (\<lambda>(k, v). k \<noteq> ''lastCheckTime'' \<and> k \<noteq> ''lastScheduledCheckTime'') data))))
      | _ \<Rightarrow> None)"
  by (simp add: filterVersionDataValidatorV3_def zod_object_def List.map_filter_def Let_def
      split: option.splits)

lemma filterVersionData_output:
  assumes "filterVersionDataValidatorV3 (Some x) = Some (Some e)"
  shows "\<exists>d t. e = JObj d \<and> obj_get ''lastCheckTime'' d = Some (JNum t)"
proof -
  from assms obtain data where x: "x = JObj data"
    by (cases x) (auto simp: filterVersionDataValidatorV3_def zod_object_def)
  let ?extra = "filter (\<lambda>(k, v). k \<noteq> ''lastCheckTime'' \<and> k \<noteq> ''lastScheduledCheckTime'') data"
  have ex: "map_of (rev ?extra) ''lastCheckTime'' = None"
    by (auto simp: map_of_eq_None_iff)
  from assms x obtain a b where
    a: "zod_number (obj_get ''lastCheckTime'' data) = Some a"
    and b: "zod_optional zod_number (obj_get ''lastScheduledCheckTime'' data) = Some b"
    and e: "e = JObj (obj_assign []
            ((case a of Some y \<Rightarrow> [(''lastCheckTime'', y)] | None \<Rightarrow> []) @
             (case b of Some y \<Rightarrow> [(''lastScheduledCheckTime'', y)] | None \<Rightarrow> []) @ ?extra))"
    by (auto simp: filterVersionData_shape split: option.splits)
  obtain t where t: "a = Some (JNum t)" using zod_number_Some[OF a] by blast
  have "obj_get ''lastCheckTime'' (obj_assign []
            ((case a of Some y \<Rightarrow> [(''lastCheckTime'', y)] | None \<Rightarrow> []) @
             (case b of Some y \<Rightarrow> [(''lastScheduledCheckTime'', y)] | None \<Rightarrow> []) @ ?extra)) = Some (JNum t)"
    using ex t by (cases b) (simp_all add: obj_get_assign map_add_def split: option.splits)
  with e show ?thesis by blast
qed

lemma zod_record_output:
  assumes "zod_record keyType valueType (Some parsed) = Some (Some (JObj out))"
    and "e \<in> snd ` set out"
  shows "\<exists>x. valueType (Some x) = Some (Some e)"
proof -
  from assms(1) obtain data where p: "parsed = JObj data"
    by (cases parsed) (auto simp: zod_record_def)
  let ?pairs = "map (\<lambda>(k, v). (keyType k, valueType (Some v))) data"
  let ?sel = "List.map_filter (\<lambda>(k, r). case (k, r) of (Some k', Some (Some y)) \<Rightarrow> Some (k', y) | _ \<Rightarrow> None) ?pairs"
  from assms(1) p have out: "out = obj_assign [] ?sel"
    by (simp add: zod_record_def Let_def split: if_splits)
  with assms(2) values_obj_assign[of "[]" ?sel] have "e \<in> snd ` set ?sel" by auto
  then obtain k' where "(k', e) \<in> set ?sel" by auto
  then obtain k v where "(k, v) \<in> set data" "valueType (Some v) = Some (Some e)"
    by (auto simp: List.map_filter_def split: option.splits)
  then show ?thesis by blast
qed


lemma migrate_reaches_filtersVersion:
  assumes "rawFilterKeys = filter (\<lambda>key. startsWith key (RAW_FILTER_KEY_PREFIX env)) (map fst (browserStorage w))"
    and "filterKeys = filter (\<lambda>key. startsWith key (FILTER_KEY_PREFIX env)) (map fst (browserStorage w))"
    and "rawFilterKeys @ filterKeys \<noteq> []" and "hybridWritable w"
  shows "\<exists>w2. migrateFromV3toV4 env w = migrateFiltersVersion env w2 \<and>
           (\<forall>k. browserStorage_get k w2 =
              (if k \<in> set (rawFilterKeys @ filterKeys) then None else browserStorage_get k w))"
proof -
  obtain migrationData w1 where
    st: "stageFilters env (browserStorage w) filterKeys rawFilterKeys w = (migrationData, w1)"
    by fastforce
  have w1: "browserStorage w1 = browserStorage w"
    using st by (auto simp: stageFilters_reading)
  have ne: "\<not> (rawFilterKeys = [] \<and> filterKeys = [])" using assms(3) by auto
  let ?w2 = "logger FiltersMigrated
                (browserStorage_removeMultiple (rawFilterKeys @ filterKeys)
                   (w1\<lparr>hybridStorage := obj_assign (hybridStorage w) migrationData\<rparr>))"
  have "migrateFromV3toV4 env w = migrateFiltersVersion env ?w2"
    using assms(4) ne by (simp add: migrateFromV3toV4_unfold[OF assms(1,2) st] del: de_Morgan_conj)
  moreover have "browserStorage_get k ?w2 =
      (if k \<in> set (rawFilterKeys @ filterKeys) then None else browserStorage_get k w)" for k
    using obj_get_remove[of k "rawFilterKeys @ filterKeys" "browserStorage w"]
    by (simp add: logger_def browserStorage_removeMultiple_def browserStorage_get_def w1)
  ultimately show ?thesis by blast
qed

lemma migrateFiltersVersion_cases:
  assumes "browserStorage_get (ADGUARD_SETTINGS_KEY env) w = Some (JObj settings)"
    and "obj_assign [] settings = settings"
    and "obj_get (FiltersVersion env) settings = Some (JStr text)"
    and "JSON_parse text = Some parsed"
  shows "filtersVersionDataValidatorV3 env (Some parsed) = Some (Some (JObj fv)) \<Longrightarrow>
           migrateFiltersVersion env w =
             (Inr (),
              logger FiltersVersionMigrated
                (browserStorage_set (ADGUARD_SETTINGS_KEY env)
                   (JObj (obj_set (FiltersVersion env)
                      (JStr (JSON_stringify
                         (JObj (map (\<lambda>(k, filterData). (k, on_object backfillScheduledCheckTime filterData)) fv))))
                      settings)) w))"
    and "filtersVersionDataValidatorV3 env (Some parsed) = None \<Longrightarrow>
           migrateFiltersVersion env w = (Inr (), logger FailedToParseFiltersVersion w)"
  using assms by (simp_all add: migrateFiltersVersion_def parse_unknown_record_obj)

text \<open>
  C6, as amended. On a store that holds at least one filter key, whose transaction
  succeeds and whose settings record is not among the deleted keys, the step rewrites the
  per-filter version field: when the validator accepts the parsed field, the field
  becomes the serialisation of the validated mapping in which every entry (an object with
  a numeric \<^verbatim>\<open>lastCheckTime\<close>) that lacks \<^verbatim>\<open>lastScheduledCheckTime\<close> has it appended with
  the value of its \<^verbatim>\<open>lastCheckTime\<close>, and every entry that carries it is unchanged; when the
  validator rejects the parsed field, the step still succeeds and the settings record is
  untouched.
\<close>

theorem backfill_when_filters_migrate:
  assumes "rawFilterKeys = filter (\<lambda>key. startsWith key (RAW_FILTER_KEY_PREFIX env)) (map fst (browserStorage w))"
    and "filterKeys = filter (\<lambda>key. startsWith key (FILTER_KEY_PREFIX env)) (map fst (browserStorage w))"
    and "rawFilterKeys @ filterKeys \<noteq> []" and "hybridWritable w"
    and "ADGUARD_SETTINGS_KEY env \<notin> set (rawFilterKeys @ filterKeys)"
    and "browserStorage_get (ADGUARD_SETTINGS_KEY env) w = Some (JObj settings)"
    and "obj_assign [] settings = settings"
    and "obj_get (FiltersVersion env) settings = Some (JStr text)"
    and "JSON_parse text = Some parsed"
  shows "(\<forall>fv. filtersVersionDataValidatorV3 env (Some parsed) = Some (Some (JObj fv)) \<longrightarrow>
            fst (migrateFromV3toV4 env w) = Inr () \<and>
            browserStorage_get (ADGUARD_SETTINGS_KEY env) (snd (migrateFromV3toV4 env w)) =
              Some (JObj (obj_set (FiltersVersion env)
                (JStr (JSON_stringify
                   (JObj (map (\<lambda>(k, filterData). (k, on_object backfillScheduledCheckTime filterData)) fv))))
                settings)) \<and>
            (\<forall>e \<in> snd ` set fv. \<exists>d t. e = JObj d \<and> obj_get ''lastCheckTime'' d = Some (JNum t) \<and>
               (obj_get ''lastScheduledCheckTime'' d = None \<longrightarrow>
                  on_object backfillScheduledCheckTime e = JObj (d @ [(''lastScheduledCheckTime'', JNum t)])) \<and>
               (obj_get ''lastScheduledCheckTime'' d \<noteq> None \<longrightarrow>
                  on_object backfillScheduledCheckTime e = e))) \<and>
         (filtersVersionDataValidatorV3 env (Some parsed) = None \<longrightarrow>
            fst (migrateFromV3toV4 env w) = Inr () \<and>
            browserStorage_get (ADGUARD_SETTINGS_KEY env) (snd (migrateFromV3toV4 env w)) =
              Some (JObj settings))"
proof -
  obtain w2 where mf: "migrateFromV3toV4 env w = migrateFiltersVersion env w2"
    and get2: "\<And>k. browserStorage_get k w2 =
              (if k \<in> set (rawFilterKeys @ filterKeys) then None else browserStorage_get k w)"
    using migrate_reaches_filtersVersion[OF assms(1-4)] by blast
  have s2: "browserStorage_get (ADGUARD_SETTINGS_KEY env) w2 = Some (JObj settings)"
    using get2[of "ADGUARD_SETTINGS_KEY env"] assms(5,6) by simp
  note cases = migrateFiltersVersion_cases[OF s2 assms(7,8,9)]
  have accepted: "fst (migrateFromV3toV4 env w) = Inr () \<and>
            browserStorage_get (ADGUARD_SETTINGS_KEY env) (snd (migrateFromV3toV4 env w)) =
              Some (JObj (obj_set (FiltersVersion env)
                (JStr (JSON_stringify
                   (JObj (map (\<lambda>(k, filterData). (k, on_object backfillScheduledCheckTime filterData)) fv))))
                settings))"
    if "filtersVersionDataValidatorV3 env (Some parsed) = Some (Some (JObj fv))" for fv
    using cases(1)[OF that]
    by (simp add: mf logger_def browserStorage_set_def browserStorage_get_def obj_get_set)
  have entries: "\<exists>d t. e = JObj d \<and> obj_get ''lastCheckTime'' d = Some (JNum t) \<and>
               (obj_get ''lastScheduledCheckTime'' d = None \<longrightarrow>
                  on_object backfillScheduledCheckTime e = JObj (d @ [(''lastScheduledCheckTime'', JNum t)])) \<and>
               (obj_get ''lastScheduledCheckTime'' d \<noteq> None \<longrightarrow>
                  on_object backfillScheduledCheckTime e = e)"
    if "filtersVersionDataValidatorV3 env (Some parsed) = Some (Some (JObj fv))" "e \<in> snd ` set fv" for fv e
  proof -
    from that obtain x where "filterVersionDataValidatorV3 (Some x) = Some (Some e)"
      using zod_record_output[of "number_key env" filterVersionDataValidatorV3 parsed fv e]
      by (auto simp: filtersVersionDataValidatorV3_def)
    then obtain d t where d: "e = JObj d" "obj_get ''lastCheckTime'' d = Some (JNum t)"
      using filterVersionData_output by blast
    then show ?thesis
      by (auto simp: on_object_def backfill_missing backfill_present)
  qed
  have rejected: "fst (migrateFromV3toV4 env w) = Inr () \<and>
            browserStorage_get (ADGUARD_SETTINGS_KEY env) (snd (migrateFromV3toV4 env w)) =
              Some (JObj settings)"
    if "filtersVersionDataValidatorV3 env (Some parsed) = None"
    using cases(2)[OF that] s2 by (simp add: mf logger_def browserStorage_get_def)
  show ?thesis using accepted entries rejected by blast
qed

lemma filtersVersionV3_parsed:
  "JSON_parse filtersVersionV3 = Some (JObj [(''3'', JObj [(''lastCheckTime'', JNum 1000)])])"
  by (simp add: filtersVersionV3_def js_eval)

lemma filtersVersionV3_validated:
  "filtersVersionDataValidatorV3 sampleEnv (Some (JObj [(''3'', JObj [(''lastCheckTime'', JNum 1000)])])) =
     Some (Some (JObj [(''3'', JObj [(''lastCheckTime'', JNum 1000)])]))"
  by (simp add: js_eval zod_eval sample_eval v3_eval)

theorem backfill_when_filters_migrate_witness:
  "fst (migrateFromV3toV4 sampleEnv storeV3) = Inr () \<and>
   browserStorage_get ''adguard-settings'' (snd (migrateFromV3toV4 sampleEnv storeV3)) =
     Some (JObj [(''filters-version'', JStr filtersVersionV4)])"
proof -
  have a: "[''raw_filterrules_2''] = filter (\<lambda>key. startsWith key (RAW_FILTER_KEY_PREFIX sampleEnv))
      (map fst (browserStorage storeV3))"
    and b: "[''filterrules_1''] = filter (\<lambda>key. startsWith key (FILTER_KEY_PREFIX sampleEnv))
      (map fst (browserStorage storeV3))"
    by (simp_all only: storeV3_keys)
  have c: "[''raw_filterrules_2''] @ [''filterrules_1''] \<noteq> []" by simp
  have d: "ADGUARD_SETTINGS_KEY sampleEnv \<notin> set ([''raw_filterrules_2''] @ [''filterrules_1''])"
    by (simp add: sampleEnv_def)
  have e: "browserStorage_get (ADGUARD_SETTINGS_KEY sampleEnv) storeV3 =
      Some (JObj [(''filters-version'', JStr filtersVersionV3)])"
    by (simp add: sampleEnv_def storeV3_def emptyWorld_def browserStorage_get_def obj_get_def)
  have f: "obj_assign [] [(''filters-version'', JStr filtersVersionV3)] = [(''filters-version'', JStr filtersVersionV3)]"
    by (simp add: js_eval)
  have g: "obj_get (FiltersVersion sampleEnv) [(''filters-version'', JStr filtersVersionV3)] = Some (JStr filtersVersionV3)"
    by (simp add: sampleEnv_def obj_get_def)
  from backfill_when_filters_migrate[OF a b c storeV3_keys(7) d e f g filtersVersionV3_parsed]
    filtersVersionV3_validated
  show ?thesis
    by (simp add: sampleEnv_def js_eval backfillScheduledCheckTime_def on_object_def filtersVersionV4_def)
qed

theorem backfill_counterexample:
  "fst (migrateFromV3toV4 sampleEnv storeV3NoFilters) = Inr () \<and>
   browserStorage_get ''adguard-settings'' (snd (migrateFromV3toV4 sampleEnv storeV3NoFilters)) =
     Some (JObj [(''filters-version'', JStr filtersVersionV3)]) \<and>
   filtersVersionV3 \<noteq> filtersVersionV4"
  by (simp add: js_eval zod_eval world_eval sample_eval v3_eval)

section \<open>The settings of schema v0 (v0 to v1)\<close>

subsection \<open>Objects with distinct property names\<close>



lemma distinct_obj_delete: "distinct (map fst ob) \<Longrightarrow> distinct (map fst (obj_delete k ob))"
  by (simp add: obj_delete_def distinct_map_filter)




subsection \<open>The v0 to v1 step\<close>





lemma moveStorageData_frame:
  "distinct (map fst s) \<Longrightarrow> distinct (map fst (fst (moveStorageData key (s, w))))"
  "k \<noteq> key \<Longrightarrow> browserStorage_get k (snd (moveStorageData key (s, w))) = browserStorage_get k w"
  "k \<noteq> key \<Longrightarrow> obj_get k (fst (moveStorageData key (s, w))) = obj_get k s"
  "hybridStorage (snd (moveStorageData key (s, w))) = hybridStorage w"
  "hybridWritable (snd (moveStorageData key (s, w))) = hybridWritable w"
  "localStorage (snd (moveStorageData key (s, w))) = localStorage w"
  "indexedDB (snd (moveStorageData key (s, w))) = indexedDB w"
  "logged (snd (moveStorageData key (s, w))) = logged w"
  by (auto simp: moveStorageData_def distinct_obj_delete browserStorage_get_def browserStorage_set_def
      obj_get_set obj_get_delete split: option.splits)

lemma fold_move_frame_all:
  "(distinct (map fst s) \<longrightarrow>
      distinct (map fst (fst (foldl (\<lambda>st key. moveStorageData key st) (s, w) keys)))) \<and>
   (k \<notin> set keys \<longrightarrow>
      browserStorage_get k (snd (foldl (\<lambda>st key. moveStorageData key st) (s, w) keys)) = browserStorage_get k w) \<and>
   hybridStorage (snd (foldl (\<lambda>st key. moveStorageData key st) (s, w) keys)) = hybridStorage w \<and>
   hybridWritable (snd (foldl (\<lambda>st key. moveStorageData key st) (s, w) keys)) = hybridWritable w \<and>
   localStorage (snd (foldl (\<lambda>st key. moveStorageData key st) (s, w) keys)) = localStorage w \<and>
   indexedDB (snd (foldl (\<lambda>st key. moveStorageData key st) (s, w) keys)) = indexedDB w \<and>
   logged (snd (foldl (\<lambda>st key. moveStorageData key st) (s, w) keys)) = logged w"
proof (induction keys arbitrary: s w)
  case Nil
  then show ?case by simp
next
  case (Cons key keys)
  obtain s1 w1 where m: "moveStorageData key (s, w) = (s1, w1)" by fastforce
  have d: "distinct (map fst s) \<longrightarrow> distinct (map fst s1)"
    using moveStorageData_frame(1)[of s key w] by (simp add: m)
  have g: "k \<noteq> key \<longrightarrow> browserStorage_get k w1 = browserStorage_get k w"
    using moveStorageData_frame(2)[of k key s w] by (simp add: m)
  have r: "hybridStorage w1 = hybridStorage w" "hybridWritable w1 = hybridWritable w"
    "localStorage w1 = localStorage w" "indexedDB w1 = indexedDB w" "logged w1 = logged w"
    using moveStorageData_frame(4-8)[of key s w] by (simp_all add: m)
  show ?case using Cons.IH[of s1 w1] d g r by (simp add: m)
qed

lemmas fold_move_frame = fold_move_frame_all[THEN conjunct1, rule_format]
  fold_move_frame_all[THEN conjunct2, THEN conjunct1, rule_format]
  fold_move_frame_all[THEN conjunct2, THEN conjunct2, THEN conjunct1]
  fold_move_frame_all[THEN conjunct2, THEN conjunct2, THEN conjunct2, THEN conjunct1]
  fold_move_frame_all[THEN conjunct2, THEN conjunct2, THEN conjunct2, THEN conjunct2, THEN conjunct1]
  fold_move_frame_all[THEN conjunct2, THEN conjunct2, THEN conjunct2, THEN conjunct2, THEN conjunct2, THEN conjunct1]
  fold_move_frame_all[THEN conjunct2, THEN conjunct2, THEN conjunct2, THEN conjunct2, THEN conjunct2, THEN conjunct2]


lemma settingsValidator_result:
  "settingsValidator env x = Some y \<Longrightarrow> \<exists>settings. y = Some (JObj settings)"
  by (cases x; cases "the x") (auto simp: settingsValidator_def zod_object_def Let_def split: if_splits)

text \<open>
  C9, as amended. A field that is present with a truthy value is deleted from the settings
  object and written under the same key to the primary backend. A field that is absent,
  or present with a falsy value, is left where it is and nothing is written. In every
  case the other fields, the other keys and the other backends are unchanged.
\<close>

theorem moveStorageData_moves_truthy_fields:
  "(\<forall>data. obj_get key currentSettings = Some data \<and> truthy (Some data) \<longrightarrow>
      moveStorageData key (currentSettings, w) =
        (obj_delete key currentSettings, browserStorage_set key data w) \<and>
      obj_get key (fst (moveStorageData key (currentSettings, w))) = None \<and>
      browserStorage_get key (snd (moveStorageData key (currentSettings, w))) = Some data) \<and>
   (\<not> truthy (obj_get key currentSettings) \<longrightarrow>
      moveStorageData key (currentSettings, w) = (currentSettings, w)) \<and>
   (\<forall>k. k \<noteq> key \<longrightarrow>
      obj_get k (fst (moveStorageData key (currentSettings, w))) = obj_get k currentSettings \<and>
      browserStorage_get k (snd (moveStorageData key (currentSettings, w))) = browserStorage_get k w) \<and>
   hybridStorage (snd (moveStorageData key (currentSettings, w))) = hybridStorage w \<and>
   localStorage (snd (moveStorageData key (currentSettings, w))) = localStorage w"
  by (auto simp: moveStorageData_def browserStorage_get_def browserStorage_set_def obj_get_set
      obj_get_delete split: option.splits)

theorem moveStorageData_moves_truthy_fields_witness:
  "moveStorageData ''client-id'' ([(''client-id'', JStr ''abc''), (''hide-rate-block'', JBool True)], emptyWorld) =
     ([(''hide-rate-block'', JBool True)], emptyWorld\<lparr>browserStorage := [(''client-id'', JStr ''abc'')]\<rparr>) \<and>
   moveStorageData ''page-statistic'' ([(''hide-rate-block'', JBool True)], emptyWorld) =
     ([(''hide-rate-block'', JBool True)], emptyWorld)"
  using moveStorageData_moves_truthy_fields[of "''client-id''"
      "[(''client-id'', JStr ''abc''), (''hide-rate-block'', JBool True)]" emptyWorld]
    moveStorageData_moves_truthy_fields[of "''page-statistic''" "[(''hide-rate-block'', JBool True)]" emptyWorld]
  by (simp add: obj_get_def obj_delete_def browserStorage_set_def obj_set_def obj_has_def
      array_index_def is_digit_def emptyWorld_def)

theorem moveStorageData_counterexample:
  "obj_get ''viewed-notification-time'' [(''viewed-notification-time'', JNum 0)] = Some (JNum 0) \<and>
   obj_get ''viewed-notification-time''
     (fst (moveStorageData ''viewed-notification-time'' ([(''viewed-notification-time'', JNum 0)], emptyWorld))) =
     Some (JNum 0) \<and>
   browserStorage_get ''viewed-notification-time''
     (snd (moveStorageData ''viewed-notification-time'' ([(''viewed-notification-time'', JNum 0)], emptyWorld))) =
     None"
  by (simp add: moveStorageData_def obj_get_def browserStorage_get_def emptyWorld_def)





section \<open>The stored schema version\<close>

lemma logger_frame [simp]:
  "browserStorage (logger d w) = browserStorage w" "hybridStorage (logger d w) = hybridStorage w"
  "hybridWritable (logger d w) = hybridWritable w" "localStorage (logger d w) = localStorage w"
  "indexedDB (logger d w) = indexedDB w"
  by (simp_all add: logger_def)

lemma migrateFromV0toV1_frame:
  assumes "k \<notin> set movedKeys" and "k \<noteq> ''adguard-settings''"
  shows "browserStorage_get k (snd (migrateFromV0toV1 env w)) = browserStorage_get k w"
    and "indexedDB (snd (migrateFromV0toV1 env w)) = indexedDB w"
proof -
  let ?w1 = "localStorage_removeItem ''viewed-notification-time''
               (localStorage_removeItem ''viewed-notifications'' w)"
  have w1: "browserStorage_get k ?w1 = browserStorage_get k w" "indexedDB ?w1 = indexedDB w"
    by (simp_all add: localStorage_removeItem_def browserStorage_get_def)
  have fold: "browserStorage_get k (snd (foldl (\<lambda>st key. moveStorageData key st) (s, ?w1) movedKeys)) =
      browserStorage_get k w"
    "indexedDB (snd (foldl (\<lambda>st key. moveStorageData key st) (s, ?w1) movedKeys)) = indexedDB w" for s
    using fold_move_frame(2)[OF assms(1), of s ?w1] fold_move_frame(6)[of s ?w1 movedKeys] w1 by simp_all
  have set: "browserStorage_get k (browserStorage_set ''adguard-settings'' v w') = browserStorage_get k w'"
    "indexedDB (browserStorage_set ''adguard-settings'' v w') = indexedDB w'" for v w'
    using assms(2) by (simp_all add: browserStorage_get_def browserStorage_set_def obj_get_set)
  show "browserStorage_get k (snd (migrateFromV0toV1 env w)) = browserStorage_get k w"
    using w1 fold set
    by (auto simp: migrateFromV0toV1_def Let_def split: sum.splits prod.splits option.splits)
      (metis snd_conv)+
  show "indexedDB (snd (migrateFromV0toV1 env w)) = indexedDB w"
    using w1 fold set
    by (auto simp: migrateFromV0toV1_def Let_def split: sum.splits prod.splits option.splits)
      (metis snd_conv)+
qed

lemma migrateFromV1toV2_frame:
  "k \<noteq> ''sb-lru-cache'' \<Longrightarrow> browserStorage_get k (snd (migrateFromV1toV2 env w)) = browserStorage_get k w"
  "indexedDB (snd (migrateFromV1toV2 env w)) = indexedDB w"
  by (auto simp: migrateFromV1toV2_def browserStorage_get_def browserStorage_set_def obj_get_set
      split: option.splits json.splits)


lemma zod_array_rows:
  assumes "zod_array v (Some (JArr xs)) = Some (Some (JArr ys))"
  shows "list_all2 (\<lambda>x y. v (Some x) = Some (Some y)) xs ys"
proof -
  have "\<not> list_ex (\<lambda>r. r = None \<or> r = Some None) (map (\<lambda>e. v (Some e)) xs) \<Longrightarrow>
      list_all2 (\<lambda>x y. v (Some x) = Some (Some y)) xs
        (List.map_filter (\<lambda>r. case r of None \<Rightarrow> None | Some y \<Rightarrow> y) (map (\<lambda>e. v (Some e)) xs))"
    by (induction xs) (auto simp: List.map_filter_def split: option.splits)
  with assms show ?thesis by (simp add: zod_array_def Let_def split: if_splits)
qed

lemma row_validated:
  assumes "zod_object [(''key'', zod_string), (''value'', zod_string)] unknown (Some x) = Some (Some y)"
  shows "\<exists>r r' key. x = JObj r \<and> y = JObj r' \<and> obj_get ''key'' r = Some (JStr key) \<and>
           obj_get ''key'' r' = Some (JStr key)"
proof -
  from assms obtain r where x: "x = JObj r" by (cases x) (auto simp: zod_object_def)
  let ?extra = "if unknown = Passthrough then filter (\<lambda>(k, v). k \<notin> set (map fst [(''key'', zod_string), (''value'', zod_string)])) r else []"
  from assms x obtain key v where kv: "obj_get ''key'' r = Some (JStr key)" "obj_get ''value'' r = Some (JStr v)"
    by (auto simp: zod_object_def zod_string_def Let_def split: option.splits json.splits if_splits)
  with assms x have y: "y = JObj (obj_assign [] ([(''key'', JStr key), (''value'', JStr v)] @ ?extra))"
    by (auto simp: zod_object_def zod_string_def Let_def List.map_filter_def split: if_splits)
  have "map_of (rev ?extra) ''key'' = None" by (auto simp: map_of_eq_None_iff)
  then have "obj_get ''key'' (obj_assign [] ([(''key'', JStr key), (''value'', JStr v)] @ ?extra)) = Some (JStr key)"
    by (simp add: obj_get_assign map_add_def split: option.splits)
  with x y kv show ?thesis by blast
qed

lemma storeUserRules_frame:
  "indexedDB (storeUserRules w item) = indexedDB w"
  "(\<forall>r key. item = JObj r \<longrightarrow> obj_get ''key'' r = Some (JStr key) \<longrightarrow> key \<noteq> k) \<Longrightarrow>
     browserStorage_get k (storeUserRules w item) = browserStorage_get k w"
  by (auto simp: storeUserRules_def browserStorage_set_def browserStorage_get_def obj_get_set
      split: json.splits option.splits)

lemma fold_storeUserRules_frame:
  "indexedDB (foldl storeUserRules w ys) = indexedDB w \<and>
   ((\<forall>y \<in> set ys. \<forall>r key. y = JObj r \<longrightarrow> obj_get ''key'' r = Some (JStr key) \<longrightarrow> key \<noteq> k) \<longrightarrow>
      browserStorage_get k (foldl storeUserRules w ys) = browserStorage_get k w)"
  by (induction ys arbitrary: w) (simp_all add: storeUserRules_frame)

lemma list_all2_right: "list_all2 P xs ys \<Longrightarrow> y \<in> set ys \<Longrightarrow> \<exists>x \<in> set xs. P x y"
  by (induction rule: list_all2_induct) auto

lemma map_filter_memI: "x \<in> set xs \<Longrightarrow> f x = Some y \<Longrightarrow> y \<in> set (List.map_filter f xs)"
proof -
  assume a: "x \<in> set xs" "f x = Some y"
  then have "x \<in> set (filter (\<lambda>x. f x \<noteq> None) xs)" by simp
  then have "the (f x) \<in> (the \<circ> f) ` set (filter (\<lambda>x. f x \<noteq> None) xs)" by (metis comp_apply imageI)
  with a(2) show ?thesis by (simp add: List.map_filter_def)
qed

lemma migrateUserRules_frame:
  "indexedDB (migrateUserRules w) = indexedDB w"
  "k \<notin> set (userRuleKeys w) \<Longrightarrow> browserStorage_get k (migrateUserRules w) = browserStorage_get k w"
proof -
  show "indexedDB (migrateUserRules w) = indexedDB w"
    by (auto simp: migrateUserRules_def fold_storeUserRules_frame split: option.splits json.splits)
  assume k: "k \<notin> set (userRuleKeys w)"
  show "browserStorage_get k (migrateUserRules w) = browserStorage_get k w"
  proof (cases "indexedDB w")
    case None
    then show ?thesis by (simp add: migrateUserRules_def browserStorage_get_def)
  next
    case (Some data)
    show ?thesis
    proof (cases "zod_array (zod_object [(''key'', zod_string), (''value'', zod_string)] Strip) (Some data)")
      case None
      with Some show ?thesis by (simp add: migrateUserRules_def browserStorage_get_def)
    next
      case valid: (Some out)
      show ?thesis
      proof (cases out)
        case None
        with Some valid show ?thesis by (simp add: migrateUserRules_def browserStorage_get_def)
      next
        case (Some j)
        from valid Some obtain xs where data: "data = JArr xs"
          by (cases data) (auto simp: zod_array_def)
        from valid Some data obtain ys where j: "j = JArr ys"
          by (auto simp: zod_array_def Let_def split: if_splits)
        from valid Some data j
        have all2: "list_all2 (\<lambda>x y. zod_object [(''key'', zod_string), (''value'', zod_string)] Strip (Some x) = Some (Some y)) xs ys"
          by (auto dest: zod_array_rows)
        have "key \<noteq> k" if "y \<in> set ys" "y = JObj r'" "obj_get ''key'' r' = Some (JStr key)" for y r' key
        proof -
          from list_all2_right[OF all2 that(1)] obtain x where x: "x \<in> set xs"
            "zod_object [(''key'', zod_string), (''value'', zod_string)] Strip (Some x) = Some (Some y)"
            by blast
          from row_validated[OF x(2)] that(2,3) obtain r where r: "x = JObj r" "obj_get ''key'' r = Some (JStr key)"
            by auto
          have "userRuleKeys w = List.map_filter
            (\<lambda>row. case row of
                     JObj r \<Rightarrow> (case obj_get ''key'' r of Some (JStr key) \<Rightarrow> Some key | _ \<Rightarrow> None)
                   | _ \<Rightarrow> None) xs"
            using \<open>indexedDB w = Some data\<close> data by (simp add: userRuleKeys_def)
          moreover have "(case x of
                     JObj r \<Rightarrow> (case obj_get ''key'' r of Some (JStr key) \<Rightarrow> Some key | _ \<Rightarrow> None)
                   | _ \<Rightarrow> None) = Some key"
            using r by simp
          ultimately have "key \<in> set (userRuleKeys w)"
            using map_filter_memI[OF x(1)] by metis
          with k show ?thesis by auto
        qed
        then have "browserStorage_get k (foldl storeUserRules w ys) = browserStorage_get k w"
          using fold_storeUserRules_frame[of w ys k] by blast
        with \<open>indexedDB w = Some data\<close> valid Some j show ?thesis
          by (simp add: migrateUserRules_def)
      qed
    qed
  qed
qed

lemma migrateFromV2toV3_frame:
  assumes "k \<notin> set (userRuleKeys w)" and "k \<noteq> ''adguard-settings''"
  shows "browserStorage_get k (snd (migrateFromV2toV3 env w)) = browserStorage_get k w"
    and "indexedDB (snd (migrateFromV2toV3 env w)) = indexedDB w"
  using migrateUserRules_frame(2)[OF assms(1)] migrateUserRules_frame(1)[of w] assms(2)
  by (auto simp: migrateFromV2toV3_def Let_def browserStorage_get_def browserStorage_set_def obj_get_set
      split: sum.splits option.splits json.splits)

lemma migrateFromV3toV4_frame:
  assumes "k \<noteq> ADGUARD_SETTINGS_KEY env" and "\<not> startsWith k (RAW_FILTER_KEY_PREFIX env)"
    and "\<not> startsWith k (FILTER_KEY_PREFIX env)"
  shows "browserStorage_get k (snd (migrateFromV3toV4 env w)) = browserStorage_get k w"
    and "indexedDB (snd (migrateFromV3toV4 env w)) = indexedDB w"
proof -
  define raw where "raw = filter (\<lambda>key. startsWith key (RAW_FILTER_KEY_PREFIX env)) (map fst (browserStorage w))"
  define flt where "flt = filter (\<lambda>key. startsWith key (FILTER_KEY_PREFIX env)) (map fst (browserStorage w))"
  define ks where "ks = raw @ flt"
  obtain migrationData w1 where
    st: "stageFilters env (browserStorage w) flt raw w = (migrationData, w1)" by fastforce
  have w1: "browserStorage w1 = browserStorage w" "indexedDB w1 = indexedDB w"
    using st by (auto simp: stageFilters_reading)
  let ?w2 = "logger FiltersMigrated (browserStorage_removeMultiple ks
               (w1\<lparr>hybridStorage := obj_assign (hybridStorage w) migrationData\<rparr>))"
  have notin: "k \<notin> set ks" using assms(2,3) by (auto simp: ks_def raw_def flt_def)
  have get2: "browserStorage_get k ?w2 = browserStorage_get k w"
    using obj_get_remove[of k ks "browserStorage w"] notin
    by (simp add: browserStorage_removeMultiple_def browserStorage_get_def w1)
  have db2: "indexedDB ?w2 = indexedDB w"
    by (simp add: browserStorage_removeMultiple_def w1)
  note step = migrateFromV3toV4_unfold[OF raw_def flt_def st, folded ks_def]
  have frame: "browserStorage_get k (snd (migrateFiltersVersion env ?w2)) = browserStorage_get k w"
    using migrateFiltersVersion_frame(5)[OF assms(1), of ?w2] get2 by simp
  show "browserStorage_get k (snd (migrateFromV3toV4 env w)) = browserStorage_get k w"
    using frame w1 by (simp add: step browserStorage_get_def)
  have "indexedDB (snd (migrateFiltersVersion env ?w2)) = indexedDB w"
    using migrateFiltersVersion_frame(4)[of env ?w2] db2 by simp
  then show "indexedDB (snd (migrateFromV3toV4 env w)) = indexedDB w"
    using w1 by (simp add: step)
qed

lemma untouchedKey_indexedDB:
  "indexedDB w' = indexedDB w \<Longrightarrow> untouchedKey env w' k = untouchedKey env w k"
  by (simp add: untouchedKey_def userRuleKeys_def)

lemma step_frame:
  assumes "schemaMigrationMap env s = Some a" and "untouchedKey env w k"
  shows "browserStorage_get k (snd (a w)) = browserStorage_get k w \<and> indexedDB (snd (a w)) = indexedDB w"
proof -
  from assms(1) consider "a = migrateFromV0toV1 env" | "a = migrateFromV1toV2 env"
    | "a = migrateFromV2toV3 env" | "a = migrateFromV3toV4 env"
    by (auto simp: schemaMigrationMap_def split: if_splits)
  then show ?thesis
  proof cases
    case 1
    then show ?thesis using assms(2) migrateFromV0toV1_frame(1)[where k = k and env = env and w = w]
        migrateFromV0toV1_frame(2)[of k env w] by (simp add: untouchedKey_def)
  next
    case 2
    then show ?thesis using assms(2) migrateFromV1toV2_frame(1)[where k = k and env = env and w = w]
        migrateFromV1toV2_frame(2)[of env w] by (simp add: untouchedKey_def)
  next
    case 3
    then show ?thesis using assms(2) migrateFromV2toV3_frame(1)[where k = k and env = env and w = w]
        migrateFromV2toV3_frame(2)[of k w env] by (simp add: untouchedKey_def)
  next
    case 4
    then show ?thesis using assms(2) migrateFromV3toV4_frame(1)[where k = k and env = env and w = w]
        migrateFromV3toV4_frame(2)[of k env w] by (simp add: untouchedKey_def)
  qed
qed

lemma runSchemaMigration_world:
  "browserStorage (snd (runSchemaMigration a s t w)) = browserStorage (snd (a w))"
  "indexedDB (snd (runSchemaMigration a s t w)) = indexedDB (snd (a w))"
  by (auto simp: runSchemaMigration_def split: prod.splits sum.splits)

lemma run_step_frame:
  assumes "schemaMigrationMap env s = Some a" and "runSchemaMigration a s t w = (r, w')"
    and "untouchedKey env w k"
  shows "browserStorage_get k w' = browserStorage_get k w" and "indexedDB w' = indexedDB w"
    and "untouchedKey env w' k"
proof -
  have a: "browserStorage w' = browserStorage (snd (a w))" "indexedDB w' = indexedDB (snd (a w))"
    using runSchemaMigration_world[of a s t w] assms(2) by simp_all
  have b: "browserStorage_get k (snd (a w)) = browserStorage_get k w" "indexedDB (snd (a w)) = indexedDB w"
    using step_frame[OF assms(1) assms(3)] by simp_all
  have "browserStorage_get k w' = browserStorage_get k (snd (a w))"
    using a(1) by (simp add: browserStorage_get_def)
  with b(1) show "browserStorage_get k w' = browserStorage_get k w" by simp
  from a(2) b(2) show db: "indexedDB w' = indexedDB w" by simp
  from untouchedKey_indexedDB[OF db] assms(3) show "untouchedKey env w' k" by simp
qed

lemma loop_frame:
  "untouchedKey env w k \<longrightarrow>
     browserStorage_get k (snd (snd (migrationLoop (schemaMigrationMap env) p c s w))) = browserStorage_get k w \<and>
     indexedDB (snd (snd (migrationLoop (schemaMigrationMap env) p c s w))) = indexedDB w"
proof (rule loop_cases[where P = "\<lambda>s w res. untouchedKey env w k \<longrightarrow>
     browserStorage_get k (snd (snd res)) = browserStorage_get k w \<and> indexedDB (snd (snd res)) = indexedDB w"
     and reg = "schemaMigrationMap env" and p = p and c = c], goal_cases)
  case (1 s w)
  then show ?case by simp
next
  case (2 s w)
  then show ?case by simp
next
  case (3 s w a e w')
  show ?case
  proof
    assume k: "untouchedKey env w k"
    from run_step_frame(1,2)[OF 3(2,3) k]
    show "browserStorage_get k (snd (snd ([s], Inl e, w'))) = browserStorage_get k w \<and>
        indexedDB (snd (snd ([s], Inl e, w'))) = indexedDB w"
      by simp
  qed
next
  case (4 s w a u w1 ex r w')
  show ?case
  proof
    assume k: "untouchedKey env w k"
    note f = run_step_frame[OF 4(2,3) k]
    from 4(5) f(3) have "browserStorage_get k w' = browserStorage_get k w1" "indexedDB w' = indexedDB w1"
      by simp_all
    with f(1,2) show "browserStorage_get k (snd (snd (s # ex, r, w'))) = browserStorage_get k w \<and>
        indexedDB (snd (snd (s # ex, r, w'))) = indexedDB w" by simp
  qed
qed


lemma persistRunInfo_frame:
  "indexedDB (persistRunInfo env info w) = indexedDB w"
  "SCHEMA_VERSION_KEY env \<noteq> APP_VERSION_KEY env \<Longrightarrow>
     browserStorage_get (SCHEMA_VERSION_KEY env) (persistRunInfo env info w) =
       Some (JNum (currentSchemaVersion info))"
  by (auto simp: persistRunInfo_def Let_def browserStorage_set_def browserStorage_get_def obj_get_set
      split: option.splits)

text \<open>
  C1, as amended. \<^verbatim>\<open>update\<close> writes the current schema version before any migration runs,
  and neither a migration step nor the recovery changes what is stored under the
  schema-version key: after every run, also one in which a step fails, the stored schema
  version is the current one. The hypotheses say that the schema-version key is not the
  application-version key and is none of the keys the steps and the recovery write.
\<close>

theorem schema_version_is_current:
  assumes "untouchedKey env w (SCHEMA_VERSION_KEY env)"
    and "SCHEMA_VERSION_KEY env \<noteq> APP_VERSION_KEY env"
  shows "browserStorage_get (SCHEMA_VERSION_KEY env) (persistRunInfo env info w) =
           Some (JNum (currentSchemaVersion info)) \<and>
         browserStorage_get (SCHEMA_VERSION_KEY env) (snd (snd (update env info w))) =
           Some (JNum (currentSchemaVersion info))"
proof -
  let ?k = "SCHEMA_VERSION_KEY env" and ?w0 = "persistRunInfo env info w"
  let ?loop = "migrationLoop (schemaMigrationMap env) (previousSchemaVersion info)
                 (currentSchemaVersion info) (previousSchemaVersion info) ?w0"
  have written: "browserStorage_get ?k ?w0 = Some (JNum (currentSchemaVersion info))"
    using persistRunInfo_frame(2)[OF assms(2)] .
  have "untouchedKey env ?w0 ?k"
    using untouchedKey_indexedDB[OF persistRunInfo_frame(1)] assms(1) by simp
  then have kept: "browserStorage_get ?k (snd (snd ?loop)) = browserStorage_get ?k ?w0"
    using loop_frame[of env ?w0 ?k] by simp
  have notsettings: "?k \<noteq> ADGUARD_SETTINGS_KEY env"
    using assms(1) by (simp add: untouchedKey_def)
  obtain ex r w' where l: "?loop = (ex, r, w')" by (metis prod_cases3)
  have "browserStorage_get ?k (snd (snd (update env info w))) = browserStorage_get ?k w'"
    using l resetSettings_frame(2)[OF notsettings]
    by (cases r) (simp_all add: update_def runMigrations_def)
  with kept l written show ?thesis by simp
qed

theorem schema_version_is_current_witness:
  "untouchedKey sampleEnv emptyWorld ''schema-version'' \<and>
   browserStorage_get ''schema-version'' (snd (snd (update sampleEnv (sampleRun 0 1) emptyWorld))) =
     Some (JNum 1)"
proof -
  have a: "untouchedKey sampleEnv emptyWorld (SCHEMA_VERSION_KEY sampleEnv)"
    by (simp add: untouchedKey_def userRuleKeys_def movedKeys_def sampleEnv_def emptyWorld_def startsWith_def)
  have b: "SCHEMA_VERSION_KEY sampleEnv \<noteq> APP_VERSION_KEY sampleEnv"
    by (simp add: sampleEnv_def)
  from schema_version_is_current[OF a b, of "sampleRun 0 1"] a
  show ?thesis by (simp add: sampleEnv_def sampleRun_def)
qed

theorem schema_version_counterexample:
  "fst (update sampleEnv (sampleRun 0 1) emptyWorld) = [0] \<and>
   logged (snd (snd (update sampleEnv (sampleRun 0 1) emptyWorld))) =
     [SchemaMigrationFailed (MigrationError 0 1 ZodError),
      ErrorWhileMigrate (MigrationError 0 1 ZodError), ResetSettings] \<and>
   browserStorage_get ''schema-version'' (snd (snd (update sampleEnv (sampleRun 0 1) emptyWorld))) =
     Some (JNum 1)"
  using failing_run_0_1
  by (simp add: update_def runMigrations_def resetSettings_def sampleRun_def sampleEnv_def emptyWorld_def
      persistRunInfo_def world_eval js_eval)

end
